theory Spec2Isabelle
  imports Main
begin

section \<open>Text as Python sees it\<close>

text \<open>
  A Python \<open>str\<close> is a sequence of Unicode code points. The scripts open their file in
  text mode with \<open>encoding='utf-8'\<close>, so what they read, match and write is such a
  sequence; a file's content is modelled as the text that \<open>f.read()\<close> returns.
\<close>

type_synonym ustr = "nat list"

definition cps :: "string \<Rightarrow> ustr" where
  "cps s = map of_char s"

text \<open>
  The character classes of \<open>re\<close> on \<open>str\<close> patterns are the Unicode ones. Below 128
  CPython decides them by fixed tables, written out here; above, by the Unicode database,
  which is not part of the repository and is taken as a parameter.
\<close>

record udb =
  u_alnum :: "nat \<Rightarrow> bool"
  u_space :: "nat \<Rightarrow> bool"

definition is_space :: "udb \<Rightarrow> nat \<Rightarrow> bool" where
  "is_space U c =
     (if c < 128 then (9 \<le> c \<and> c \<le> 13) \<or> (28 \<le> c \<and> c \<le> 32) else u_space U c)"

definition is_word :: "udb \<Rightarrow> nat \<Rightarrow> bool" where
  "is_word U c =
     (if c < 128
      then (48 \<le> c \<and> c \<le> 57) \<or> (65 \<le> c \<and> c \<le> 90) \<or> (97 \<le> c \<and> c \<le> 122) \<or> c = 95
      else u_alnum U c)"

section \<open>The regular expressions the scripts use\<close>

text \<open>
  The nine patterns of the scripts are built from literal text, \<open>\s*\<close>,
  \<open>[^}]+\<close>, \<open>\b\<close>, concatenation, the alternation \<open>(?:prev|p)\<close> and one capturing
  group. \<open>Star\<close> and \<open>Plus\<close> are the greedy repetitions of a one-character class.
\<close>

datatype cls = Space | Other nat

datatype re =
    Lits ustr
  | Star cls
  | Plus cls
  | WordB
  | Seq re re
  | Alt re re
  | Grp re

fun in_cls :: "udb \<Rightarrow> cls \<Rightarrow> nat \<Rightarrow> bool" where
  "in_cls U Space c = is_space U c"
| "in_cls U (Other d) c = (c \<noteq> d)"

text \<open>
  A cursor is a position in the subject string: the character before it (none at the
  start), the text from it on, and what group 1 has captured so far.
\<close>

type_synonym cursor = "nat option \<times> ustr \<times> ustr option"

fun word_before :: "udb \<Rightarrow> nat option \<Rightarrow> bool" where
  "word_before U None = False"
| "word_before U (Some c) = is_word U c"

fun word_after :: "udb \<Rightarrow> ustr \<Rightarrow> bool" where
  "word_after U [] = False"
| "word_after U (c # cs) = is_word U c"

text \<open>
  The backtracking matcher of \<open>re\<close>, as the list of the cursors where a match of the
  expression can end, in the order in which the engine tries them: the greedy repetition
  takes the longest run first and gives characters back one at a time, an alternation
  tries its left branch first. The head of the list is the match \<open>re\<close> reports.
\<close>

fun star :: "udb \<Rightarrow> cls \<Rightarrow> nat option \<Rightarrow> ustr \<Rightarrow> ustr option \<Rightarrow> cursor list" where
  "star U k p [] g = [(p, [], g)]"
| "star U k p (c # cs) g =
     (if in_cls U k c then star U k (Some c) cs g @ [(p, c # cs, g)] else [(p, c # cs, g)])"

fun lits :: "ustr \<Rightarrow> nat option \<Rightarrow> ustr \<Rightarrow> ustr option \<Rightarrow> cursor list" where
  "lits [] p s g = [(p, s, g)]"
| "lits (d # ds) p [] g = []"
| "lits (d # ds) p (c # cs) g = (if c = d then lits ds (Some c) cs g else [])"

fun m :: "udb \<Rightarrow> re \<Rightarrow> cursor \<Rightarrow> cursor list" where
  "m U (Lits w) (p, s, g) = lits w p s g"
| "m U (Star k) (p, s, g) = star U k p s g"
| "m U (Plus k) (p, s, g) =
     (case s of [] \<Rightarrow> [] | c # cs \<Rightarrow> if in_cls U k c then star U k (Some c) cs g else [])"
| "m U WordB (p, s, g) = (if word_before U p \<noteq> word_after U s then [(p, s, g)] else [])"
| "m U (Seq r1 r2) c = concat (map (m U r2) (m U r1 c))"
| "m U (Alt r1 r2) c = m U r1 c @ m U r2 c"
| "m U (Grp r) (p, s, g) =
     map (\<lambda>(p', s', g'). (p', s', Some (take (length s - length s') s))) (m U r (p, s, g))"

lemma star_length: "(p', s', g') \<in> set (star U k p s g) \<Longrightarrow> length s' \<le> length s"
  by (induction U k p s g rule: star.induct) (fastforce split: if_splits)+

lemma lits_length: "(p', s', g') \<in> set (lits w p s g) \<Longrightarrow> length s' \<le> length s"
  by (induction w p s g rule: lits.induct) (auto split: if_splits)

lemma m_length: "(p', s', g') \<in> set (m U r (p, s, g)) \<Longrightarrow> length s' \<le> length s"
proof (induction r arbitrary: p s g p' s' g')
  case (Lits w)
  then show ?case by (auto dest: lits_length)
next
  case (Star k)
  then show ?case by (auto dest: star_length)
next
  case (Plus k)
  then show ?case by (fastforce split: list.splits if_splits dest: star_length)
next
  case WordB
  then show ?case by (auto split: if_splits)
next
  case (Seq r1 r2)
  from Seq.prems obtain p1 s1 g1 where
    a: "(p1, s1, g1) \<in> set (m U r1 (p, s, g))" and b: "(p', s', g') \<in> set (m U r2 (p1, s1, g1))"
    by auto
  from Seq.IH(1)[OF a] Seq.IH(2)[OF b] show ?case by simp
next
  case (Alt r1 r2)
  then show ?case by auto
next
  case (Grp r)
  then show ?case by auto
qed

section \<open>Substitution\<close>

text \<open>
  \<open>re.sub\<close> and \<open>re.subn\<close>: one scan from left to right over the subject. At each
  position the first way to match is taken; the replacement is computed from the match,
  and the scan goes on at the end of the match, in the original text. Where nothing
  matches, one character is copied. After an empty match the next match at the same
  position must not be empty (\<open>adv\<close>, the engine's \<open>must_advance\<close>). The replacement is a
  function of group 1 of the match, as the callbacks of the scripts are; a replacement
  string without escapes is the constant function.
\<close>

definition usable :: "ustr \<Rightarrow> bool \<Rightarrow> cursor \<Rightarrow> bool" where
  "usable s adv c = (case c of (p', s', g') \<Rightarrow> \<not> adv \<or> length s' < length s)"

function scan :: "udb \<Rightarrow> re \<Rightarrow> (ustr option \<Rightarrow> ustr) \<Rightarrow> nat option \<Rightarrow> ustr \<Rightarrow> bool \<Rightarrow> ustr \<times> nat" where
  "scan U r f p s adv =
     (case find (usable s adv) (m U r (p, s, None)) of
        Some (p', s', g') \<Rightarrow>
          (case scan U r f p' s' (length s' = length s) of (out, n) \<Rightarrow> (f g' @ out, Suc n))
      | None \<Rightarrow>
          (case s of
             [] \<Rightarrow> ([], 0)
           | c # cs \<Rightarrow> (case scan U r f (Some c) cs False of (out, n) \<Rightarrow> (c # out, n))))"
  by pat_completeness auto
termination
proof (relation "measure (\<lambda>(U, r, f, p, s, adv). 2 * length s + (if adv then 0 else 1))")
  show "wf (measure (\<lambda>(U, r, f, p, s, adv). 2 * length s + (if adv then 0 else 1)))"
    by simp
next
  fix U r f p s adv x2 p' y s' g'
  assume a: "find (usable s adv) (m U r (p, s, None)) = Some x2" "(p', y) = x2" "(s', g') = y"
  then have "(p', s', g') \<in> set (m U r (p, s, None))" and u: "usable s adv (p', s', g')"
    by (auto simp: find_Some_iff)
  then have "length s' \<le> length s"
    by (auto dest: m_length)
  with u show "((U, r, f, p', s', length s' = length s), U, r, f, p, s, adv)
      \<in> measure (\<lambda>(U, r, f, p, s, adv). 2 * length s + (if adv then 0 else 1))"
    by (auto simp: usable_def)
next
  fix U r f p s adv c cs
  assume "find (usable s adv) (m U r (p, s, None)) = None" "s = c # cs"
  then show "((U, r, f, Some c, cs, False), U, r, f, p, s, adv)
      \<in> measure (\<lambda>(U, r, f, p, s, adv). 2 * length s + (if adv then 0 else 1))"
    by auto
qed

definition subn :: "udb \<Rightarrow> re \<Rightarrow> (ustr option \<Rightarrow> ustr) \<Rightarrow> ustr \<Rightarrow> ustr \<times> nat" where
  "subn U r f s = scan U r f None s False"

fun seqs :: "re list \<Rightarrow> re" where
  "seqs [] = Lits []"
| "seqs [r] = r"
| "seqs (r # rs) = Seq r (seqs rs)"

section \<open>Files\<close>

text \<open>
  The file system is a map from paths to the text of the files. A read fails when the
  file is missing. A write of a whole file can fail when the file is opened, leaving the
  file system as it was, or while the text is written, leaving a prefix of the text; the
  fault of each write is a parameter of the run. All three scripts work on one hardcoded
  path. The second error is the one that a \<open>print\<close> can raise, in the section on standard
  output.
\<close>

type_synonym path = ustr

type_synonym fs = "path \<Rightarrow> ustr option"

datatype error = IOError | UnicodeEncodeError

datatype fault = NoFault | OpenFails | WriteFails nat

definition py_read :: "fs \<Rightarrow> path \<Rightarrow> error + ustr" where
  "py_read files p = (case files p of None \<Rightarrow> Inl IOError | Some text \<Rightarrow> Inr text)"

fun py_write :: "fs \<Rightarrow> path \<Rightarrow> ustr \<Rightarrow> fault \<Rightarrow> fs \<times> error option" where
  "py_write files p text NoFault = (files(p \<mapsto> text), None)"
| "py_write files p text OpenFails = (files, Some IOError)"
| "py_write files p text (WriteFails n) = (files(p \<mapsto> take n text), Some IOError)"

definition file_path :: ustr where
  "file_path =
     cps ''Z:'' @
     [92, 48148, 51060, 48652, 53076, 46377, 92] @
     cps ''memory bank'' @
     [92] @
     cps ''hahahahgo'' @
     [92] @
     cps ''src'' @
     [92] @
     cps ''components'' @
     [92] @
     cps ''battle'' @
     [92] @
     cps ''LegacyBattleApp.jsx''"


section \<open>migrate\_phase.py\<close>

definition migrate_pattern1 :: re where
  "migrate_pattern1 = seqs [WordB, Lits (cps ''setPhase('')]"

definition migrate_replacement1 :: ustr where
  "migrate_replacement1 = cps ''actions.setPhase(''"

definition migrate_pattern2 :: re where
  "migrate_pattern2 = seqs [WordB, Lits (cps ''phase''), Star Space, Lits (cps ''==='')]"

definition migrate_replacement2 :: ustr where
  "migrate_replacement2 = cps ''battle.phase ===''"

definition migrate_pattern3 :: re where
  "migrate_pattern3 = seqs [WordB, Lits (cps ''phase''), Star Space, Lits (cps ''!=='')]"

definition migrate_replacement3 :: ustr where
  "migrate_replacement3 = cps ''battle.phase !==''"

definition migrate_pattern4 :: re where
  "migrate_pattern4 = seqs [Lits (cps ''(''), Star Space, Lits (cps ''phase''), WordB]"

definition migrate_replacement4 :: ustr where
  "migrate_replacement4 = cps ''(battle.phase''"

definition migrate_pattern5 :: re where
  "migrate_pattern5 = seqs [Lits (cps '',''), Star Space, Lits (cps ''phase''), WordB]"

definition migrate_replacement5 :: ustr where
  "migrate_replacement5 = cps '', battle.phase''"

definition migrate_pattern6 :: re where
  "migrate_pattern6 = seqs [Lits (cps ''{''), Star Space, Lits (cps ''phase''), WordB]"

definition migrate_replacement6 :: ustr where
  "migrate_replacement6 = cps ''{ battle.phase''"

definition migrate_pattern7 :: re where
  "migrate_pattern7 = seqs [Lits (cps ''[''), Star Space, Lits (cps ''phase''), WordB]"

definition migrate_replacement7 :: ustr where
  "migrate_replacement7 = cps ''[battle.phase''"

text \<open>
  The seven substitutions, each on the text the one before it returned. The result is the
  final text, the seven counts in order and their sum \<open>changes\<close>.
\<close>

definition migrate_transform :: "udb \<Rightarrow> ustr \<Rightarrow> ustr \<times> nat list \<times> nat" where
  "migrate_transform U content =
     (case subn U migrate_pattern1 (\<lambda>g. migrate_replacement1) content of (content1, count1) \<Rightarrow>
      case subn U migrate_pattern2 (\<lambda>g. migrate_replacement2) content1 of (content2, count2) \<Rightarrow>
      case subn U migrate_pattern3 (\<lambda>g. migrate_replacement3) content2 of (content3, count3) \<Rightarrow>
      case subn U migrate_pattern4 (\<lambda>g. migrate_replacement4) content3 of (content4, count4) \<Rightarrow>
      case subn U migrate_pattern5 (\<lambda>g. migrate_replacement5) content4 of (content5, count5) \<Rightarrow>
      case subn U migrate_pattern6 (\<lambda>g. migrate_replacement6) content5 of (content6, count6) \<Rightarrow>
      case subn U migrate_pattern7 (\<lambda>g. migrate_replacement7) content6 of (content7, count7) \<Rightarrow>
        (content7, [count1, count2, count3, count4, count5, count6, count7],
         count1 + count2 + count3 + count4 + count5 + count6 + count7))"

text \<open>
  The script: read the file, write the backup, substitute, write the file. An exception
  of a read or a write ends the run where it is raised; what was written stays written.
\<close>

definition migrate_phase :: "udb \<Rightarrow> fs \<Rightarrow> fault \<Rightarrow> fault \<Rightarrow> fs \<times> (error + nat list \<times> nat)" where
  "migrate_phase U files f1 f2 =
     (case py_read files file_path of
        Inl e \<Rightarrow> (files, Inl e)
      | Inr content \<Rightarrow>
          (case py_write files (file_path @ cps ''.phase_backup'') content f1 of
             (files1, Some e) \<Rightarrow> (files1, Inl e)
           | (files1, None) \<Rightarrow>
               (case migrate_transform U content of
                  (content', counts, changes) \<Rightarrow>
                    (case py_write files1 file_path content' f2 of
                       (files2, Some e) \<Rightarrow> (files2, Inl e)
                     | (files2, None) \<Rightarrow> (files2, Inr (counts, changes))))))"

section \<open>fix\_functional\_updates.py\<close>

definition fix_pattern1 :: re where
  "fix_pattern1 =
     seqs [Lits (cps ''actions.setPlayer(''), Star Space, Alt (Lits (cps ''prev'')) (Lits (cps ''p'')),
           Star Space, Lits (cps ''=>''), Star Space, Lits (cps ''({''), Star Space, Lits (cps ''...''),
           Alt (Lits (cps ''prev'')) (Lits (cps ''p'')), Lits (cps '',''), Star Space,
           Grp (Plus (Other 125)), Lits (cps ''})''), Star Space, Lits (cps '')'')]"

text \<open>
  The callbacks format group 1 into the replacement; a group that took no part in the
  match would be formatted as \<open>None\<close>.
\<close>

definition fields :: "ustr option \<Rightarrow> ustr" where
  "fields g = (case g of None \<Rightarrow> cps ''None'' | Some text \<Rightarrow> text)"

definition replace1 :: "ustr option \<Rightarrow> ustr" where
  "replace1 g = cps ''actions.setPlayer({ ...player, '' @ fields g @ cps ''})''"

definition fix_pattern2 :: re where
  "fix_pattern2 =
     seqs [Lits (cps ''actions.setEnemy(''), Star Space, Alt (Lits (cps ''prev'')) (Lits (cps ''e'')),
           Star Space, Lits (cps ''=>''), Star Space, Lits (cps ''({''), Star Space, Lits (cps ''...''),
           Alt (Lits (cps ''prev'')) (Lits (cps ''e'')), Lits (cps '',''), Star Space,
           Grp (Plus (Other 125)), Lits (cps ''})''), Star Space, Lits (cps '')'')]"

definition replace2 :: "ustr option \<Rightarrow> ustr" where
  "replace2 g = cps ''actions.setEnemy({ ...enemy, '' @ fields g @ cps ''})''"

text \<open>
  Each call of a callback adds one to the global \<open>changes\<close>; the script prints the
  counter after the first substitution, its growth over the second, and its final value.
\<close>

definition fix_transform :: "udb \<Rightarrow> ustr \<Rightarrow> ustr \<times> nat list \<times> nat" where
  "fix_transform U content =
     (case subn U fix_pattern1 replace1 content of (content1, changes1) \<Rightarrow>
      case subn U fix_pattern2 replace2 content1 of (content2, changes2) \<Rightarrow>
        (content2, [changes1, changes2], changes1 + changes2))"

definition fix_functional_updates :: "udb \<Rightarrow> fs \<Rightarrow> fault \<Rightarrow> fault \<Rightarrow> fs \<times> (error + nat list \<times> nat)" where
  "fix_functional_updates U files f1 f2 =
     (case py_read files file_path of
        Inl e \<Rightarrow> (files, Inl e)
      | Inr content \<Rightarrow>
          (case py_write files (file_path @ cps ''.func_update_backup'') content f1 of
             (files1, Some e) \<Rightarrow> (files1, Inl e)
           | (files1, None) \<Rightarrow>
               (case fix_transform U content of
                  (content', counts, changes) \<Rightarrow>
                    (case py_write files1 file_path content' f2 of
                       (files2, Some e) \<Rightarrow> (files2, Inl e)
                     | (files2, None) \<Rightarrow> (files2, Inr (counts, changes))))))"

section \<open>replace\_ui\_components.py\<close>

definition new_code :: ustr where
  "new_code =
     cps ''        {/* '' @ [54540, 47112, 51060, 50612] @ cps ''/'' @ [51201] @ cps '' '' @ [51221, 48372] @ cps '' + '' @ [51473, 50521] @ cps '' '' @ [51221, 48372] @ cps '' '' @ [53685, 54633] @ cps '' '' @ [47112, 51060, 50500, 50883] @ cps '' */}'' @ [10] @
     cps ''        <div style={{ display: 'flex', alignItems: 'flex-start', justifyContent: 'flex-end', marginBottom: '50px', gap: '120px', position: 'relative', marginTop: '40px', paddingRight: '40px' }}>'' @ [10] @
     cps ''          <EtherComparisonBar'' @ [10] @
     cps ''            battle={battle}'' @ [10] @
     cps ''            etherFinalValue={etherFinalValue}'' @ [10] @
     cps ''            enemyEtherFinalValue={enemyEtherFinalValue}'' @ [10] @
     cps ''            netFinalEther={netFinalEther}'' @ [10] @
     cps ''            position='' @ [34] @ cps ''top'' @ [34, 10] @
     cps ''          />'' @ [10] @
     [10] @
     cps ''          {/* '' @ [50812, 51901] @ cps '': '' @ [54540, 47112, 51060, 50612] @ cps '' */}'' @ [10] @
     cps ''          <div style={{ display: 'flex', flexDirection: 'column', alignItems: 'flex-start', gap: '12px', minWidth: '360px', position: 'relative', justifyContent: 'flex-end', paddingTop: '200px' }}>'' @ [10] @
     cps ''            <PlayerEtherBox'' @ [10] @
     cps ''              currentCombo={currentCombo}'' @ [10] @
     cps ''              battle={battle}'' @ [10] @
     cps ''              currentDeflation={currentDeflation}'' @ [10] @
     cps ''              etherCalcPhase={etherCalcPhase}'' @ [10] @
     cps ''              turnEtherAccumulated={turnEtherAccumulated}'' @ [10] @
     cps ''              etherPulse={etherPulse}'' @ [10] @
     cps ''              finalComboMultiplier={finalComboMultiplier}'' @ [10] @
     cps ''              multiplierPulse={multiplierPulse}'' @ [10] @
     cps ''            />'' @ [10] @
     cps ''            <PlayerHpBar'' @ [10] @
     cps ''              player={player}'' @ [10] @
     cps ''              playerHit={playerHit}'' @ [10] @
     cps ''              playerBlockAnim={playerBlockAnim}'' @ [10] @
     cps ''              playerOverdriveFlash={playerOverdriveFlash}'' @ [10] @
     cps ''              effectiveAgility={effectiveAgility}'' @ [10] @
     cps ''              dulledLevel={dulledLevel}'' @ [10] @
     cps ''            />'' @ [10] @
     cps ''          </div>'' @ [10] @
     [10] @
     cps ''          <CentralPhaseDisplay'' @ [10] @
     cps ''            battle={battle}'' @ [10] @
     cps ''            totalSpeed={totalSpeed}'' @ [10] @
     cps ''            MAX_SPEED={MAX_SPEED}'' @ [10] @
     cps ''            MAX_SUBMIT_CARDS={MAX_SUBMIT_CARDS}'' @ [10] @
     cps ''            redrawHand={redrawHand}'' @ [10] @
     cps ''            canRedraw={canRedraw}'' @ [10] @
     cps ''            startResolve={startResolve}'' @ [10] @
     cps ''            playSound={playSound}'' @ [10] @
     cps ''            actions={actions}'' @ [10] @
     cps ''            willOverdrive={willOverdrive}'' @ [10] @
     cps ''            etherSlots={etherSlots}'' @ [10] @
     cps ''            player={player}'' @ [10] @
     cps ''            beginResolveFromRespond={beginResolveFromRespond}'' @ [10] @
     cps ''            rewindToSelect={rewindToSelect}'' @ [10] @
     cps ''            rewindUsed={rewindUsed}'' @ [10] @
     cps ''            respondSnapshot={respondSnapshot}'' @ [10] @
     cps ''            autoProgress={autoProgress}'' @ [10] @
     cps ''            etherFinalValue={etherFinalValue}'' @ [10] @
     cps ''            enemy={enemy}'' @ [10] @
     cps ''            finishTurn={finishTurn}'' @ [10] @
     cps ''          />'' @ [10] @
     [10] @
     cps ''          <EtherComparisonBar'' @ [10] @
     cps ''            battle={battle}'' @ [10] @
     cps ''            etherFinalValue={etherFinalValue}'' @ [10] @
     cps ''            enemyEtherFinalValue={enemyEtherFinalValue}'' @ [10] @
     cps ''            netFinalEther={netFinalEther}'' @ [10] @
     cps ''            position='' @ [34] @ cps ''bottom'' @ [34, 10] @
     cps ''          />'' @ [10] @
     [10] @
     cps ''          {/* '' @ [50724, 47480, 51901] @ cps '': '' @ [51201] @ cps '' */}'' @ [10] @
     cps ''          <div style={{ display: 'flex', flexDirection: 'column', alignItems: 'flex-end', gap: '12px', minWidth: '360px', position: 'relative', justifyContent: 'center', paddingTop: '120px' }}>'' @ [10] @
     cps ''            {soulShatter && ('' @ [10] @
     cps ''              <div className='' @ [34] @ cps ''soul-shatter-banner'' @ [34] @ cps ''>'' @ [10] @
     cps ''                <div className='' @ [34] @ cps ''soul-shatter-text'' @ [34] @ cps ''>'' @ [50689, 54844, 54028, 44340] @ cps ''!</div>'' @ [10] @
     cps ''              </div>'' @ [10] @
     cps ''            )}'' @ [10] @
     cps ''            <EnemyEtherBox'' @ [10] @
     cps ''              enemyCombo={enemyCombo}'' @ [10] @
     cps ''              battle={battle}'' @ [10] @
     cps ''              insightReveal={insightReveal}'' @ [10] @
     cps ''              enemyCurrentDeflation={enemyCurrentDeflation}'' @ [10] @
     cps ''              enemyEtherCalcPhase={enemyEtherCalcPhase}'' @ [10] @
     cps ''              enemyTurnEtherAccumulated={enemyTurnEtherAccumulated}'' @ [10] @
     cps ''              COMBO_MULTIPLIERS={COMBO_MULTIPLIERS}'' @ [10] @
     cps ''            />'' @ [10] @
     cps ''            <EnemyHpBar'' @ [10] @
     cps ''              battle={battle}'' @ [10] @
     cps ''              previewDamage={previewDamage}'' @ [10] @
     cps ''              dulledLevel={dulledLevel}'' @ [10] @
     cps ''              enemy={enemy}'' @ [10] @
     cps ''              enemyHit={enemyHit}'' @ [10] @
     cps ''              enemyBlockAnim={enemyBlockAnim}'' @ [10] @
     cps ''              soulShatter={soulShatter}'' @ [10] @
     cps ''              groupedEnemyMembers={groupedEnemyMembers}'' @ [10] @
     cps ''              enemyOverdriveFlash={enemyOverdriveFlash}'' @ [10] @
     cps ''              enemyEtherValue={enemyEtherValue}'' @ [10] @
     cps ''              enemyTransferPulse={enemyTransferPulse}'' @ [10] @
     cps ''              enemySoulScale={enemySoulScale}'' @ [10] @
     cps ''              formatCompactValue={formatCompactValue}'' @ [10] @
     cps ''            />'' @ [10] @
     cps ''          </div>'' @ [10] @
     cps ''        </div>'' @ [10] @
     cps ''      </div>'' @ [10]"

text \<open>
  \<open>readlines\<close> cuts the text after each newline and keeps the newline with its line;
  \<open>writelines\<close> writes the lines one after the other.
\<close>

fun readlines :: "ustr \<Rightarrow> ustr list" where
  "readlines [] = []"
| "readlines (c # cs) =
     (if c = 10 then [c] # readlines cs
      else (case readlines cs of [] \<Rightarrow> [[c]] | l # ls \<Rightarrow> (c # l) # ls))"

definition new_lines :: "ustr list \<Rightarrow> ustr list" where
  "new_lines lines = take 3627 lines @ [new_code] @ drop 4196 lines"

text \<open>
  The script: read the lines, splice, write. It reports the two line counts. Slices
  of a Python list never raise: bounds beyond the end are cut to the end.
\<close>

definition replace_ui_components :: "fs \<Rightarrow> fault \<Rightarrow> fs \<times> (error + nat \<times> nat)" where
  "replace_ui_components files f =
     (case py_read files file_path of
        Inl e \<Rightarrow> (files, Inl e)
      | Inr content \<Rightarrow>
          (case py_write files file_path (concat (new_lines (readlines content))) f of
             (files1, Some e) \<Rightarrow> (files1, Inl e)
           | (files1, None) \<Rightarrow>
               (files1, Inr (length (readlines content), length (new_lines (readlines content))))))"

section \<open>Standard output\<close>

text \<open>
  The scripts report their progress with \<open>print\<close>. What is printed is no part of the
  results above, but a \<open>print\<close> can end a run: the text is encoded for standard output,
  and a character that the encoding of standard output does not have raises
  \<open>UnicodeEncodeError\<close>. The encoding belongs to the environment of the run (the
  console, the locale, a redirection), not to the script; it is given by the set of the
  code points from 128 on that it has, every encoding having the ASCII characters.
  \<open>print\<close> writes its text and a newline.
\<close>

type_synonym encoding = "nat \<Rightarrow> bool"

definition encodable :: "encoding \<Rightarrow> nat \<Rightarrow> bool" where
  "encodable out c = (c < 128 \<or> out c)"

definition py_print :: "encoding \<Rightarrow> ustr \<Rightarrow> error option" where
  "py_print out text = (if list_all (encodable out) (text @ [10]) then None else Some UnicodeEncodeError)"

fun prints :: "encoding \<Rightarrow> ustr list \<Rightarrow> error option" where
  "prints out [] = None"
| "prints out (text # texts) = (case py_print out text of Some e \<Rightarrow> Some e | None \<Rightarrow> prints out texts)"

text \<open>The decimal digits of a number, as an f-string formats an \<open>int\<close>.\<close>

function dec :: "nat \<Rightarrow> ustr" where
  "dec n = (if n < 10 then [48 + n] else dec (n div 10) @ [48 + n mod 10])"
  by pat_completeness auto
termination
  by (relation "measure id") auto

declare dec.simps [simp del]

definition dec_int :: "int \<Rightarrow> ustr" where
  "dec_int i = (if i < 0 then 45 # dec (nat (- i)) else dec (nat i))"

text \<open>
  The messages of \<open>migrate_phase.py\<close>: one after the backup is written, one after each
  substitution with its count and one with the sum, all before the file is written; five
  after it.
\<close>

definition migrate_backup_message :: ustr where
  "migrate_backup_message =
     [9989] @ cps '' '' @ [48177, 50629] @ cps '' '' @ [49373, 49457]
       @ cps '': LegacyBattleApp.jsx.phase_backup''"

definition migrate_count_messages :: "nat list \<Rightarrow> nat \<Rightarrow> ustr list" where
  "migrate_count_messages counts changes =
     [[9989] @ cps '' setPhase '' @ [8594] @ cps '' actions.setPhase: '' @ dec (counts ! 0)
          @ [44060] @ cps '' '' @ [48320, 44221],
      [9989] @ cps '' phase === '' @ [8594] @ cps '' battle.phase ===: '' @ dec (counts ! 1)
          @ [44060] @ cps '' '' @ [48320, 44221],
      [9989] @ cps '' phase !== '' @ [8594] @ cps '' battle.phase !==: '' @ dec (counts ! 2)
          @ [44060] @ cps '' '' @ [48320, 44221],
      [9989] @ cps '' (phase '' @ [8594] @ cps '' (battle.phase: '' @ dec (counts ! 3) @ [44060]
          @ cps '' '' @ [48320, 44221],
      [9989] @ cps '' , phase '' @ [8594] @ cps '' , battle.phase: '' @ dec (counts ! 4) @ [44060]
          @ cps '' '' @ [48320, 44221],
      [9989] @ cps '' { phase '' @ [8594] @ cps '' { battle.phase: '' @ dec (counts ! 5) @ [44060]
          @ cps '' '' @ [48320, 44221],
      [9989] @ cps '' [phase '' @ [8594] @ cps '' [battle.phase: '' @ dec (counts ! 6) @ [44060]
          @ cps '' '' @ [48320, 44221],
      [10, 52509] @ cps '' '' @ dec changes @ [44060] @ cps '' '' @ [48320, 44221]]"

definition migrate_closing_messages :: "ustr list" where
  "migrate_closing_messages =
     [[9989] @ cps '' '' @ [54028, 51068] @ cps '' '' @ [51200, 51109] @ cps '' ''
          @ [50756, 47308] @ cps '': '' @ file_path,
      [10, 45796, 51020] @ cps '' '' @ [45800, 44228] @ cps '':'',
      cps ''1. npm run build '' @ [47196] @ cps '' '' @ [48716, 46300] @ cps '' ''
          @ [53580, 49828, 53944],
      cps ''2. '' @ [47928, 51228] @ cps '' '' @ [51080, 51004, 47732]
          @ cps '': mv LegacyBattleApp.jsx.phase_backup LegacyBattleApp.jsx'',
      cps ''3. '' @ [49457, 44277, 54616, 47732] @ cps '': '' @ [45796, 51020] @ cps '' Phase''
          @ [47196] @ cps '' '' @ [51652, 54665]]"

text \<open>
  The script with its messages. A substitution has no effect outside its result and
  raises nothing, so the seven of them are taken together, as \<open>migrate_transform\<close>, before
  the messages that report their counts; what a run does to the files and how it ends
  depends on the order of the writes and of the messages only, which is that of the
  script.
\<close>

definition migrate_phase_console ::
  "encoding \<Rightarrow> udb \<Rightarrow> fs \<Rightarrow> fault \<Rightarrow> fault \<Rightarrow> fs \<times> (error + nat list \<times> nat)" where
  "migrate_phase_console out U files f1 f2 =
     (case py_read files file_path of
        Inl e \<Rightarrow> (files, Inl e)
      | Inr content \<Rightarrow>
          (case py_write files (file_path @ cps ''.phase_backup'') content f1 of
             (files1, Some e) \<Rightarrow> (files1, Inl e)
           | (files1, None) \<Rightarrow>
               (case py_print out migrate_backup_message of
                  Some e \<Rightarrow> (files1, Inl e)
                | None \<Rightarrow>
                    (case migrate_transform U content of
                       (content', counts, changes) \<Rightarrow>
                         (case prints out (migrate_count_messages counts changes) of
                            Some e \<Rightarrow> (files1, Inl e)
                          | None \<Rightarrow>
                              (case py_write files1 file_path content' f2 of
                                 (files2, Some e) \<Rightarrow> (files2, Inl e)
                               | (files2, None) \<Rightarrow>
                                   (case prints out migrate_closing_messages of
                                      Some e \<Rightarrow> (files2, Inl e)
                                    | None \<Rightarrow> (files2, Inr (counts, changes)))))))))"

text \<open>
  The messages of \<open>fix_functional_updates.py\<close>: one after the backup is written; the
  counter after the first substitution, its growth over the second, a warning of four
  lines and the final counter, before the file is written; five after it.
\<close>

definition fix_backup_message :: ustr where
  "fix_backup_message =
     [9989] @ cps '' '' @ [48177, 50629] @ cps '' '' @ [49373, 49457]
       @ cps '': LegacyBattleApp.jsx.func_update_backup''"

definition fix_count_messages :: "nat list \<Rightarrow> nat \<Rightarrow> ustr list" where
  "fix_count_messages counts changes =
     [[9989] @ cps '' setPlayer '' @ [54620] @ cps '' '' @ [51460] @ cps '' '' @ [54056, 53556]
          @ cps '' '' @ [48320, 54872] @ cps '': '' @ dec (counts ! 0) @ [44060],
      [9989] @ cps '' setEnemy '' @ [54620] @ cps '' '' @ [51460] @ cps '' '' @ [54056, 53556]
          @ cps '' '' @ [48320, 54872] @ cps '': '' @ dec (counts ! 1) @ [44060],
      [10, 9888, 65039] @ cps ''  '' @ [50668, 47084] @ cps '' '' @ [51460]
          @ cps '' functional update'' @ [45716] @ cps '' '' @ [49688, 46041] @ cps '' ''
          @ [54869, 51064] @ cps '' '' @ [54596, 50836] @ cps '':'',
      cps ''   - Line 1715: actions.setPlayer(p => { ... })'',
      cps ''   - Line 2872: actions.setPlayer(p => { ... })'',
      cps ''   - Line 2898: actions.setEnemy(e => { ... })'',
      [10, 52509] @ cps '' '' @ dec changes @ [44060] @ cps '' '' @ [51088, 46041] @ cps '' ''
          @ [48320, 54872]]"

definition fix_closing_messages :: "ustr list" where
  "fix_closing_messages =
     [[9989] @ cps '' '' @ [54028, 51068] @ cps '' '' @ [51200, 51109] @ cps '' ''
          @ [50756, 47308] @ cps '': '' @ file_path,
      [10, 45796, 51020] @ cps '' '' @ [45800, 44228] @ cps '':'',
      cps ''1. npm run build'' @ [47196] @ cps '' '' @ [48716, 46300] @ cps '' ''
          @ [53580, 49828, 53944],
      cps ''2. '' @ [50668, 47084] @ cps '' '' @ [51460] @ cps '' '' @ [54056, 53556] @ cps '' 3''
          @ [44060] @ cps '' '' @ [49688, 46041] @ cps '' '' @ [49688, 51221],
      cps ''3. '' @ [49457, 44277, 54616, 47732] @ cps '' '' @ [52964, 48139]]"

definition fix_functional_updates_console ::
  "encoding \<Rightarrow> udb \<Rightarrow> fs \<Rightarrow> fault \<Rightarrow> fault \<Rightarrow> fs \<times> (error + nat list \<times> nat)" where
  "fix_functional_updates_console out U files f1 f2 =
     (case py_read files file_path of
        Inl e \<Rightarrow> (files, Inl e)
      | Inr content \<Rightarrow>
          (case py_write files (file_path @ cps ''.func_update_backup'') content f1 of
             (files1, Some e) \<Rightarrow> (files1, Inl e)
           | (files1, None) \<Rightarrow>
               (case py_print out fix_backup_message of
                  Some e \<Rightarrow> (files1, Inl e)
                | None \<Rightarrow>
                    (case fix_transform U content of
                       (content', counts, changes) \<Rightarrow>
                         (case prints out (fix_count_messages counts changes) of
                            Some e \<Rightarrow> (files1, Inl e)
                          | None \<Rightarrow>
                              (case py_write files1 file_path content' f2 of
                                 (files2, Some e) \<Rightarrow> (files2, Inl e)
                               | (files2, None) \<Rightarrow>
                                   (case prints out fix_closing_messages of
                                      Some e \<Rightarrow> (files2, Inl e)
                                    | None \<Rightarrow> (files2, Inr (counts, changes)))))))))"

text \<open>
  \<open>replace_ui_components.py\<close> prints four lines, all after the file is written: the
  path, the two line counts and their difference.
\<close>

definition replace_messages :: "ustr list \<Rightarrow> ustr list" where
  "replace_messages lines =
     [[9989] @ cps '' Successfully replaced lines 3628-4196 in '' @ file_path,
      cps ''   Original: '' @ dec (length lines) @ cps '' lines'',
      cps ''   New: '' @ dec (length (new_lines lines)) @ cps '' lines'',
      cps ''   Reduction: '' @ dec_int (int (length lines) - int (length (new_lines lines)))
          @ cps '' lines'']"

definition replace_ui_components_console :: "encoding \<Rightarrow> fs \<Rightarrow> fault \<Rightarrow> fs \<times> (error + nat \<times> nat)" where
  "replace_ui_components_console out files f =
     (case py_read files file_path of
        Inl e \<Rightarrow> (files, Inl e)
      | Inr content \<Rightarrow>
          (case py_write files file_path (concat (new_lines (readlines content))) f of
             (files1, Some e) \<Rightarrow> (files1, Inl e)
           | (files1, None) \<Rightarrow>
               (case prints out (replace_messages (readlines content)) of
                  Some e \<Rightarrow> (files1, Inl e)
                | None \<Rightarrow>
                    (files1, Inr (length (readlines content), length (new_lines (readlines content)))))))"

section \<open>Where a pattern matches\<close>

text \<open>
  Two predicates on the positions of a text. \<open>no_match\<close>: the pattern matches at no
  position from the cursor to the end of the text, the end included. \<open>calm\<close>: it matches
  at no position of a first part of the text, seen with the rest that follows.
  \<open>before\<close> is the character before the position that follows a text.
\<close>

declare scan.simps [simp del]

fun no_match :: "udb \<Rightarrow> re \<Rightarrow> nat option \<Rightarrow> ustr \<Rightarrow> bool" where
  "no_match U r p [] = (m U r (p, [], None) = [])"
| "no_match U r p (c # cs) = (m U r (p, c # cs, None) = [] \<and> no_match U r (Some c) cs)"

fun calm :: "udb \<Rightarrow> re \<Rightarrow> nat option \<Rightarrow> ustr \<Rightarrow> ustr \<Rightarrow> bool" where
  "calm U r p [] rest = True"
| "calm U r p (c # cs) rest = (m U r (p, c # cs @ rest, None) = [] \<and> calm U r (Some c) cs rest)"

fun before :: "nat option \<Rightarrow> ustr \<Rightarrow> nat option" where
  "before p [] = p"
| "before p (c # cs) = before (Some c) cs"

lemma scan_no_match: "no_match U r p s \<Longrightarrow> scan U r f p s adv = (s, 0)"
proof (induction s arbitrary: p adv)
  case Nil
  then show ?case by (subst scan.simps) simp
next
  case (Cons c cs)
  then show ?case by (subst scan.simps) simp
qed

lemma scan_calm:
  "calm U r p pre rest \<Longrightarrow>
   scan U r f p (pre @ rest) False =
     (case scan U r f (before p pre) rest False of (out, n) \<Rightarrow> (pre @ out, n))"
proof (induction pre arbitrary: p)
  case Nil
  then show ?case by (simp split: prod.splits)
next
  case (Cons c cs)
  then have a: "m U r (p, c # cs @ rest, None) = []" and b: "calm U r (Some c) cs rest"
    by simp_all
  have "scan U r f p ((c # cs) @ rest) False =
      (case scan U r f (Some c) (cs @ rest) False of (out, n) \<Rightarrow> (c # out, n))"
    using a by (subst scan.simps) simp
  with Cons.IH[OF b] show ?case by (simp split: prod.splits)
qed

lemma scan_match:
  assumes "m U r (p, tok @ post, None) = (p', post, g) # alts" and "tok \<noteq> []"
  shows "scan U r f p (tok @ post) False =
     (case scan U r f p' post False of (out, n) \<Rightarrow> (f g @ out, Suc n))"
  using assms by (subst scan.simps) (simp add: usable_def)

lemma subn_single:
  assumes "calm U r None pre (tok @ post)"
    and "m U r (before None pre, tok @ post, None) = (p', post, g) # alts"
    and "tok \<noteq> []"
    and "no_match U r p' post"
  shows "subn U r f (pre @ tok @ post) = (pre @ f g @ post, 1)"
proof -
  have "scan U r f None (pre @ tok @ post) False =
      (case scan U r f (before None pre) (tok @ post) False of (out, n) \<Rightarrow> (pre @ out, n))"
    using assms(1) by (rule scan_calm)
  also have "scan U r f (before None pre) (tok @ post) False =
      (case scan U r f p' post False of (out, n) \<Rightarrow> (f g @ out, Suc n))"
    using assms(2,3) by (rule scan_match)
  also have "scan U r f p' post False = (post, 0)"
    using assms(4) by (rule scan_no_match)
  finally show ?thesis by (simp add: subn_def)
qed

section \<open>Vocabulary of the properties\<close>

text \<open>
  A Unicode database to run the definitions on: the Hangul syllables are letters, the
  no-break space and the ideographic space are spaces.
\<close>

definition sample_udb :: udb where
  "sample_udb = \<lparr>u_alnum = (\<lambda>c. 44032 \<le> c \<and> c \<le> 55203), u_space = (\<lambda>c. c = 160 \<or> c = 12288)\<rparr>"

lemmas char_simps = cps_def is_word_def is_space_def

lemmas run_simps = subn_def scan.simps usable_def

lemmas migrate_defs =
  migrate_pattern1_def migrate_pattern2_def migrate_pattern3_def migrate_pattern4_def
  migrate_pattern5_def migrate_pattern6_def migrate_pattern7_def
  migrate_replacement1_def migrate_replacement2_def migrate_replacement3_def migrate_replacement4_def
  migrate_replacement5_def migrate_replacement6_def migrate_replacement7_def

text \<open>
  A character of an identifier: a word character that is not a space as well. Below 128
  every word character is one; above, it is the Unicode database that keeps the letters
  and the spaces apart.
\<close>

definition ident_char :: "udb \<Rightarrow> nat \<Rightarrow> bool" where
  "ident_char U c = (is_word U c \<and> \<not> is_space U c)"

text \<open>
  The line-range rule in the words of the specification: the lines before line \<open>start\<close>,
  the block as one element, the lines from line \<open>stop\<close> on, for the half-open interval
  of the lines \<open>start\<close> to \<open>stop - 1\<close>, counted from 1. The script's \<open>new_lines\<close> is
  compared with it.
\<close>

definition line_range_rule :: "nat \<Rightarrow> nat \<Rightarrow> 'a \<Rightarrow> 'a list \<Rightarrow> 'a list" where
  "line_range_rule start stop B lines = take (start - 1) lines @ [B] @ drop (stop - 1) lines"

text \<open>
  The rule set in the words of the specification: the rules are applied in their order,
  each to the buffer the one before it returned, and the counts are collected in that
  order. The straight-line code of the two substitution scripts is compared with it.
\<close>

type_synonym rule = "re \<times> (ustr option \<Rightarrow> ustr)"

fun apply_rules :: "udb \<Rightarrow> rule list \<Rightarrow> ustr \<Rightarrow> ustr \<times> nat list" where
  "apply_rules U [] buf = (buf, [])"
| "apply_rules U ((r, f) # rs) buf =
     (case subn U r f buf of (buf1, n) \<Rightarrow>
      case apply_rules U rs buf1 of (buf2, ns) \<Rightarrow> (buf2, n # ns))"

definition migrate_rules :: "rule list" where
  "migrate_rules =
     [(migrate_pattern1, \<lambda>g. migrate_replacement1), (migrate_pattern2, \<lambda>g. migrate_replacement2),
      (migrate_pattern3, \<lambda>g. migrate_replacement3), (migrate_pattern4, \<lambda>g. migrate_replacement4),
      (migrate_pattern5, \<lambda>g. migrate_replacement5), (migrate_pattern6, \<lambda>g. migrate_replacement6),
      (migrate_pattern7, \<lambda>g. migrate_replacement7)]"

definition fix_rules :: "rule list" where
  "fix_rules = [(fix_pattern1, replace1), (fix_pattern2, replace2)]"

lemma apply_rules_append:
  "apply_rules U (rs1 @ rs2) buf =
     (case apply_rules U rs1 buf of (buf1, ns1) \<Rightarrow>
      case apply_rules U rs2 buf1 of (buf2, ns2) \<Rightarrow> (buf2, ns1 @ ns2))"
  by (induction rs1 arbitrary: buf) (auto split: prod.splits)

lemma migrate_transform_rules:
  "migrate_transform U content =
     (case apply_rules U migrate_rules content of (content', counts) \<Rightarrow> (content', counts, sum_list counts))"
  by (simp add: migrate_transform_def migrate_rules_def split: prod.splits)

lemma fix_transform_rules:
  "fix_transform U content =
     (case apply_rules U fix_rules content of (content', counts) \<Rightarrow> (content', counts, sum_list counts))"
  by (simp add: fix_transform_def fix_rules_def split: prod.splits)

lemma backup_path_differs: "file_path @ cps (c # cs) \<noteq> file_path"
  by (simp add: cps_def)

section \<open>Line splice\<close>

text \<open>
  C3. For a document of \<open>N\<close> lines and a valid half-open interval of lines counted from
  1, \<open>1 \<le> start \<le> stop \<le> N + 1\<close>, the line-range rule gives the lines before \<open>start\<close>,
  the block as one element, and the lines from \<open>stop\<close> on: the result has
  \<open>N - (stop - start) + 1\<close> elements, its first \<open>start - 1\<close> lines are those of the
  document, the block stands at index \<open>start - 1\<close>, and what follows it is the document
  from line \<open>stop\<close> on. The script's splice \<open>lines[:3627] + [new_code] + lines[4196:]\<close> is
  this rule for \<open>start = 3628\<close>, \<open>stop = 4197\<close> and the block \<open>new_code\<close>.
\<close>

theorem line_splice_exact:
  assumes "1 \<le> start" and "start \<le> stop" and "stop \<le> length lines + 1"
  shows "length (line_range_rule start stop B lines) = length lines - (stop - start) + 1
    \<and> take (start - 1) (line_range_rule start stop B lines) = take (start - 1) lines
    \<and> line_range_rule start stop B lines ! (start - 1) = B
    \<and> drop start (line_range_rule start stop B lines) = drop (stop - 1) lines
    \<and> new_lines lines = line_range_rule 3628 4197 new_code lines"
proof -
  from assms have len: "start - 1 \<le> length lines" by simp
  then have m: "min (length lines) (start - 1) = start - 1" by simp
  have "length (line_range_rule start stop B lines) = length lines - (stop - start) + 1"
    using assms by (simp add: line_range_rule_def m)
  moreover have "take (start - 1) (line_range_rule start stop B lines) = take (start - 1) lines"
    using len by (simp add: line_range_rule_def)
  moreover have "line_range_rule start stop B lines ! (start - 1) = B"
    using len by (simp add: line_range_rule_def nth_append m)
  moreover have "drop start (line_range_rule start stop B lines) = drop (stop - 1) lines"
    using assms len by (simp add: line_range_rule_def m)
  moreover have "new_lines lines = line_range_rule 3628 4197 new_code lines"
    by (simp add: new_lines_def line_range_rule_def)
  ultimately show ?thesis by blast
qed

text \<open>The script's interval on a document of 4200 lines: 3632 lines remain.\<close>

theorem line_splice_exact_witness:
  "length (new_lines (replicate 4200 [10])) = 3632
   \<and> take 3627 (new_lines (replicate 4200 [10])) = replicate 3627 [10]
   \<and> new_lines (replicate 4200 [10]) ! 3627 = new_code
   \<and> drop 3628 (new_lines (replicate 4200 [10])) = replicate 4 [10]"
  using line_splice_exact [of 3628 4197 "replicate 4200 [10]" new_code] by simp

section \<open>Rules in sequence\<close>

text \<open>
  C7. Applying the ordered rule set \<open>[R1, R2]\<close> to a buffer is applying \<open>R2\<close> to the
  result of applying \<open>R1\<close>: the second rule reads the buffer the first one wrote, and
  the counts follow in order. The seven substitutions of the phase migration are such a
  rule set: the text and the counts of \<open>migrate_transform\<close> are those of
  \<open>apply_rules\<close> on the seven rules, and the rule set may be cut at any rule \<open>k\<close>, the
  rules after the cut working on the buffer of the rules before it.
\<close>

theorem sequential_composition:
  "apply_rules U [R1, R2] buf =
     (case apply_rules U [R1] buf of (buf1, ns1) \<Rightarrow>
      case apply_rules U [R2] buf1 of (buf2, ns2) \<Rightarrow> (buf2, ns1 @ ns2))
   \<and> fst (apply_rules U [R1, R2] buf) = fst (apply_rules U [R2] (fst (apply_rules U [R1] buf)))
   \<and> fst (migrate_transform U content) = fst (apply_rules U migrate_rules content)
   \<and> fst (snd (migrate_transform U content)) = snd (apply_rules U migrate_rules content)
   \<and> apply_rules U migrate_rules content =
       (case apply_rules U (take k migrate_rules) content of (buf1, ns1) \<Rightarrow>
        case apply_rules U (drop k migrate_rules) buf1 of (buf2, ns2) \<Rightarrow> (buf2, ns1 @ ns2))"
proof -
  have a: "apply_rules U [R1, R2] buf =
     (case apply_rules U [R1] buf of (buf1, ns1) \<Rightarrow>
      case apply_rules U [R2] buf1 of (buf2, ns2) \<Rightarrow> (buf2, ns1 @ ns2))"
    using apply_rules_append [of U "[R1]" "[R2]" buf] by simp
  then have b: "fst (apply_rules U [R1, R2] buf) = fst (apply_rules U [R2] (fst (apply_rules U [R1] buf)))"
    by (simp split: prod.splits)
  have c: "apply_rules U migrate_rules content =
       (case apply_rules U (take k migrate_rules) content of (buf1, ns1) \<Rightarrow>
        case apply_rules U (drop k migrate_rules) buf1 of (buf2, ns2) \<Rightarrow> (buf2, ns1 @ ns2))"
    using apply_rules_append [of U "take k migrate_rules" "drop k migrate_rules" content] by simp
  from a b c show ?thesis
    by (simp add: migrate_transform_rules split: prod.splits)
qed

text \<open>
  The first two rules of the migration on \<open>setPhase(phase === 1)\<close>: the second rule finds
  its match in the text the first one produced.
\<close>

theorem sequential_composition_witness:
  "apply_rules sample_udb
     [(migrate_pattern1, \<lambda>g. migrate_replacement1), (migrate_pattern2, \<lambda>g. migrate_replacement2)]
     (cps ''setPhase(phase === 1)'') =
   (cps ''actions.setPhase(battle.phase === 1)'', [1, 1])"
  using sequential_composition
    [of sample_udb "(migrate_pattern1, \<lambda>g. migrate_replacement1)"
      "(migrate_pattern2, \<lambda>g. migrate_replacement2)" "cps ''setPhase(phase === 1)''"]
  by (simp add: run_simps migrate_defs char_simps sample_udb_def)

section \<open>Running the migration twice\<close>

text \<open>
  C5. The phase migration is not idempotent. On the buffer \<open>phase === 'select'\<close> the
  first run rewrites the text to \<open>battle.phase === 'select'\<close> with one change, by the
  second rule; a second run changes the text again, to
  \<open>battle.battle.phase === 'select'\<close>, with one change more by the same rule. The reason is
  that the pattern matches its own replacement: after the dot of \<open>battle.phase ===\<close> there
  is a word boundary, and the match starts there.
\<close>

theorem not_idempotent:
  "migrate_transform U (cps ''phase === 'select'' @ [39]) =
     (cps ''battle.phase === 'select'' @ [39], [0, 1, 0, 0, 0, 0, 0], 1)
   \<and> migrate_transform U (cps ''battle.phase === 'select'' @ [39]) =
     (cps ''battle.battle.phase === 'select'' @ [39], [0, 1, 0, 0, 0, 0, 0], 1)
   \<and> subn U migrate_pattern2 (\<lambda>g. migrate_replacement2) migrate_replacement2 =
     (cps ''battle.battle.phase ==='', 1)
   \<and> m U migrate_pattern2 (Some 46, cps ''phase ==='', None) = [(Some 61, [], None)]"
proof -
  have "migrate_transform U (cps ''phase === 'select'' @ [39]) =
     (cps ''battle.phase === 'select'' @ [39], [0, 1, 0, 0, 0, 0, 0], 1)"
    by (simp add: migrate_transform_def run_simps migrate_defs char_simps)
  moreover have "migrate_transform U (cps ''battle.phase === 'select'' @ [39]) =
     (cps ''battle.battle.phase === 'select'' @ [39], [0, 1, 0, 0, 0, 0, 0], 1)"
    by (simp add: migrate_transform_def run_simps migrate_defs char_simps)
  moreover have "subn U migrate_pattern2 (\<lambda>g. migrate_replacement2) migrate_replacement2 =
     (cps ''battle.battle.phase ==='', 1)"
    by (simp add: run_simps migrate_defs char_simps)
  moreover have "m U migrate_pattern2 (Some 46, cps ''phase ==='', None) = [(Some 61, [], None)]"
    by (simp add: migrate_defs char_simps)
  ultimately show ?thesis by blast
qed

text \<open>There is a buffer that a second run changes again, with a change of the second rule.\<close>

theorem not_idempotent_witness:
  "\<exists>buf. case migrate_transform sample_udb buf of (buf1, counts1, changes1) \<Rightarrow>
     case migrate_transform sample_udb buf1 of (buf2, counts2, changes2) \<Rightarrow>
       buf2 \<noteq> buf1 \<and> counts2 ! 1 = 1 \<and> changes2 \<noteq> 0"
  using not_idempotent [of sample_udb]
  by (intro exI [of _ "cps ''phase === 'select'' @ [39]"]) (simp add: cps_def)

section \<open>Backups\<close>

lemmas script_defs = migrate_phase_def fix_functional_updates_def replace_ui_components_def py_read_def

lemma new_code_not_empty: "new_code \<noteq> []"
  by (simp add: new_code_def cps_def)

text \<open>
  The two substitution scripts keep the invariant, whatever fails: where a run leaves
  the target with another content than it had, the backup holds the content it had.
\<close>

lemma migrate_backup_precedes_mutation:
  "fst (migrate_phase U files f1 f2) file_path \<noteq> files file_path \<Longrightarrow>
   fst (migrate_phase U files f1 f2) (file_path @ cps ''.phase_backup'') = files file_path"
  by (cases f1; cases f2)
    (auto simp: script_defs cps_def split: option.splits prod.splits)

lemma fix_backup_precedes_mutation:
  "fst (fix_functional_updates U files f1 f2) file_path \<noteq> files file_path \<Longrightarrow>
   fst (fix_functional_updates U files f1 f2) (file_path @ cps ''.func_update_backup'') = files file_path"
  by (cases f1; cases f2)
    (auto simp: script_defs cps_def split: option.splits prod.splits)

text \<open>
  C1. Backup precedes mutation, for each of the three scripts. The line-range script
  breaks it: on a file system that holds only the target, with the two lines \<open>x\<close> and
  \<open>y\<close>, the run succeeds, the target has a new content, and the target is still the only
  file: no backup was written.
\<close>

theorem replace_ui_overwrites_without_backup:
  "replace_ui_components [file_path \<mapsto> cps ''x'' @ [10] @ cps ''y'' @ [10]] NoFault =
     ([file_path \<mapsto> cps ''x'' @ [10] @ cps ''y'' @ [10] @ new_code], Inr (2, 3))
   \<and> cps ''x'' @ [10] @ cps ''y'' @ [10] @ new_code \<noteq> cps ''x'' @ [10] @ cps ''y'' @ [10]
   \<and> dom (fst (replace_ui_components [file_path \<mapsto> cps ''x'' @ [10] @ cps ''y'' @ [10]] NoFault)) = {file_path}"
  by (simp add: script_defs new_lines_def cps_def new_code_not_empty)

text \<open>
  C6. In a run that creates a backup, that is, whose first write succeeds, the backup
  holds the text that was read from the target, under the target's path with the suffix
  of the script appended, \<open>.phase_backup\<close> or \<open>.func_update_backup\<close>. It is written
  before anything else: the rest of the run is the write of the transformed text on the
  file system that has the backup, so the backup holds the text no rule has touched; and
  a run whose backup cannot be opened ends there, the file system as it was.
\<close>

theorem backup_is_the_source:
  assumes "files file_path = Some content"
  shows "fst (migrate_phase U files NoFault f2) (file_path @ cps ''.phase_backup'') = Some content
    \<and> fst (fix_functional_updates U files NoFault f2) (file_path @ cps ''.func_update_backup'') = Some content
    \<and> migrate_phase U files NoFault f2 =
        (case py_write (files(file_path @ cps ''.phase_backup'' \<mapsto> content)) file_path
                (fst (migrate_transform U content)) f2 of
           (files2, None) \<Rightarrow> (files2, Inr (snd (migrate_transform U content)))
         | (files2, Some e) \<Rightarrow> (files2, Inl e))
    \<and> fix_functional_updates U files NoFault f2 =
        (case py_write (files(file_path @ cps ''.func_update_backup'' \<mapsto> content)) file_path
                (fst (fix_transform U content)) f2 of
           (files2, None) \<Rightarrow> (files2, Inr (snd (fix_transform U content)))
         | (files2, Some e) \<Rightarrow> (files2, Inl e))
    \<and> migrate_phase U files OpenFails f2 = (files, Inl IOError)
    \<and> fix_functional_updates U files OpenFails f2 = (files, Inl IOError)"
proof -
  have a: "migrate_phase U files NoFault f2 =
        (case py_write (files(file_path @ cps ''.phase_backup'' \<mapsto> content)) file_path
                (fst (migrate_transform U content)) f2 of
           (files2, None) \<Rightarrow> (files2, Inr (snd (migrate_transform U content)))
         | (files2, Some e) \<Rightarrow> (files2, Inl e))"
    using assms by (simp add: script_defs split: prod.splits option.splits)
  have b: "fix_functional_updates U files NoFault f2 =
        (case py_write (files(file_path @ cps ''.func_update_backup'' \<mapsto> content)) file_path
                (fst (fix_transform U content)) f2 of
           (files2, None) \<Rightarrow> (files2, Inr (snd (fix_transform U content)))
         | (files2, Some e) \<Rightarrow> (files2, Inl e))"
    using assms by (simp add: script_defs split: prod.splits option.splits)
  have c: "fst (migrate_phase U files NoFault f2) (file_path @ cps ''.phase_backup'') = Some content"
    unfolding a by (cases f2) (simp_all add: cps_def)
  have d: "fst (fix_functional_updates U files NoFault f2) (file_path @ cps ''.func_update_backup'') = Some content"
    unfolding b by (cases f2) (simp_all add: cps_def)
  have e: "migrate_phase U files OpenFails f2 = (files, Inl IOError)"
    using assms by (simp add: script_defs)
  have f: "fix_functional_updates U files OpenFails f2 = (files, Inl IOError)"
    using assms by (simp add: script_defs)
  from a b c d e f show ?thesis by blast
qed

text \<open>
  A target that holds \<open>setPhase(1)\<close>: after the migration the backup holds
  \<open>setPhase(1)\<close>, and it does so too when the write of the target breaks off at once.
\<close>

theorem backup_is_the_source_witness:
  "fst (migrate_phase sample_udb [file_path \<mapsto> cps ''setPhase(1)''] NoFault NoFault)
       (file_path @ cps ''.phase_backup'') = Some (cps ''setPhase(1)'')
   \<and> fst (migrate_phase sample_udb [file_path \<mapsto> cps ''setPhase(1)''] NoFault (WriteFails 0))
       (file_path @ cps ''.phase_backup'') = Some (cps ''setPhase(1)'')
   \<and> fst (fix_functional_updates sample_udb [file_path \<mapsto> cps ''setPhase(1)''] NoFault NoFault)
       (file_path @ cps ''.func_update_backup'') = Some (cps ''setPhase(1)'')"
proof -
  have h: "[file_path \<mapsto> cps ''setPhase(1)''] file_path = Some (cps ''setPhase(1)'')"
    by simp
  from backup_is_the_source
      [of "[file_path \<mapsto> cps ''setPhase(1)'']" "cps ''setPhase(1)''" sample_udb NoFault, OF h]
    backup_is_the_source
      [of "[file_path \<mapsto> cps ''setPhase(1)'']" "cps ''setPhase(1)''" sample_udb "WriteFails 0", OF h]
  show ?thesis by blast
qed

section \<open>Intervals beyond the end of the document\<close>




section \<open>A pattern without a match\<close>

text \<open>
  C9. A rule whose pattern matches nowhere in the buffer is not an error: the
  substitution returns the buffer as it is with the count 0, and the rule set goes on
  with the next rule on the same buffer, the 0 first among the counts. A run of either
  substitution script whose reads and writes succeed ends with its counts, whatever the
  buffer is and however few matches there are.
\<close>

theorem no_match_is_not_an_error:
  assumes "no_match U r None buf"
  shows "subn U r f buf = (buf, 0)
    \<and> apply_rules U ((r, f) # rs) buf = (case apply_rules U rs buf of (buf', ns) \<Rightarrow> (buf', 0 # ns))
    \<and> snd (migrate_phase U (files(file_path \<mapsto> buf)) NoFault NoFault) = Inr (snd (migrate_transform U buf))
    \<and> snd (fix_functional_updates U (files(file_path \<mapsto> buf)) NoFault NoFault) = Inr (snd (fix_transform U buf))"
proof -
  have a: "subn U r f buf = (buf, 0)"
    using assms by (simp add: subn_def scan_no_match)
  then have b: "apply_rules U ((r, f) # rs) buf = (case apply_rules U rs buf of (buf', ns) \<Rightarrow> (buf', 0 # ns))"
    by simp
  have c: "snd (migrate_phase U (files(file_path \<mapsto> buf)) NoFault NoFault) = Inr (snd (migrate_transform U buf))"
    by (simp add: script_defs split: prod.splits)
  have d: "snd (fix_functional_updates U (files(file_path \<mapsto> buf)) NoFault NoFault) = Inr (snd (fix_transform U buf))"
    by (simp add: script_defs split: prod.splits)
  from a b c d show ?thesis by blast
qed

text \<open>
  On \<open>resetPhase(phase)\<close> the first rule of the migration has no match (no word boundary
  before \<open>setPhase\<close>); the buffer reaches the other rules unchanged, and the fourth one
  rewrites it.
\<close>

theorem no_match_is_not_an_error_witness:
  "subn sample_udb migrate_pattern1 (\<lambda>g. migrate_replacement1) (cps ''resetPhase(phase)'') =
     (cps ''resetPhase(phase)'', 0)
   \<and> apply_rules sample_udb migrate_rules (cps ''resetPhase(phase)'') =
     (cps ''resetPhase(battle.phase)'', [0, 0, 0, 1, 0, 0, 0])"
proof -
  have h: "no_match sample_udb migrate_pattern1 None (cps ''resetPhase(phase)'')"
    by (simp add: migrate_defs char_simps sample_udb_def)
  have "apply_rules sample_udb (tl migrate_rules) (cps ''resetPhase(phase)'') =
     (cps ''resetPhase(battle.phase)'', [0, 0, 1, 0, 0, 0])"
    by (simp add: migrate_rules_def run_simps migrate_defs char_simps sample_udb_def)
  with no_match_is_not_an_error [OF h, of "\<lambda>g. migrate_replacement1" "tl migrate_rules"]
  show ?thesis by (simp add: migrate_rules_def)
qed

section \<open>The phase rule\<close>

lemma phase_match:
  "\<not> word_before U p \<Longrightarrow>
   m U migrate_pattern2 (p, cps ''phase ==='' @ post, None) = [(Some 61, post, None)]"
  by (simp add: migrate_pattern2_def char_simps)

text \<open>
  Where the pattern of the rule has no match: after a word character, whatever follows;
  at a text that does not start with \<open>phase\<close>; where \<open>phase\<close> is followed by a character
  that is neither a space nor \<open>=\<close>. Hence at no position of an identifier other than
  \<open>phase\<close> itself.
\<close>

lemma lits_take: "lits w p s g \<noteq> [] \<Longrightarrow> take (length w) s = w"
  by (induction w p s g rule: lits.induct) (auto split: if_splits)

lemma no_match_after_word:
  "word_before U q \<Longrightarrow> m U migrate_pattern2 (q, s, None) = []"
proof (cases s)
  case Nil
  then show ?thesis by (simp add: migrate_pattern2_def char_simps)
next
  case (Cons c cs)
  assume w: "word_before U q"
  show ?thesis
  proof (cases "c = 112")
    case True
    with w Cons show ?thesis by (simp add: migrate_pattern2_def char_simps)
  next
    case False
    with Cons show ?thesis by (simp add: migrate_pattern2_def char_simps)
  qed
qed

lemma no_match_other_start:
  "take 5 s \<noteq> cps ''phase'' \<Longrightarrow> m U migrate_pattern2 (q, s, None) = []"
proof -
  assume a: "take 5 s \<noteq> cps ''phase''"
  have l: "length (cps ''phase'') = 5" by (simp add: cps_def)
  have "lits (cps ''phase'') q s None = []"
    using a lits_take [of "cps ''phase''" q s None] unfolding l by blast
  then show ?thesis by (simp add: migrate_pattern2_def)
qed

lemma no_match_phase_followed:
  "\<not> is_space U c \<Longrightarrow> c \<noteq> 61 \<Longrightarrow> m U migrate_pattern2 (q, cps ''phase'' @ c # t, None) = []"
  by (simp add: migrate_pattern2_def cps_def is_word_def)

lemma calm_after_word:
  "list_all (is_word U) w \<Longrightarrow> word_before U q \<Longrightarrow> calm U migrate_pattern2 q w rest"
proof (induction w arbitrary: q)
  case Nil
  then show ?case by simp
next
  case (Cons c cs)
  have "m U migrate_pattern2 (q, (c # cs) @ rest, None) = []"
    using Cons.prems(2) by (rule no_match_after_word)
  moreover have "calm U migrate_pattern2 (Some c) cs rest"
    using Cons.prems(1) by (intro Cons.IH) simp_all
  ultimately show ?case by simp
qed

lemma phase_letters: "k < 5 \<Longrightarrow> is_word U (cps ''phase'' ! k)"
proof -
  assume "k < 5"
  then have "k = 0 \<or> k = 1 \<or> k = 2 \<or> k = 3 \<or> k = 4" by arith
  then show ?thesis by (auto simp: cps_def is_word_def)
qed

lemma no_match_at_identifier:
  assumes w: "list_all (ident_char U) w"
    and r: "\<not> word_after U rest"
    and n: "w \<noteq> cps ''phase''"
  shows "m U migrate_pattern2 (q, w @ rest, None) = []"
proof (cases "take 5 (w @ rest) = cps ''phase''")
  case False
  then show ?thesis by (rule no_match_other_start)
next
  case True
  have l: "length (cps ''phase'') = 5" by (simp add: cps_def)
  consider "length w < 5" | "length w = 5" | "5 < length w" by arith
  then show ?thesis
  proof cases
    case 1
    have "rest \<noteq> []"
    proof
      assume "rest = []"
      with True 1 have "length (take 5 w) = 5" using l by simp
      with 1 show False by simp
    qed
    then obtain c cs where rest: "rest = c # cs" by (cases rest) auto
    have "(w @ rest) ! length w = c" using rest by simp
    moreover have "take 5 (w @ rest) ! length w = (w @ rest) ! length w"
      using 1 by (intro nth_take)
    ultimately have "c = cps ''phase'' ! length w" using True by simp
    with 1 have "is_word U c" by (simp add: phase_letters)
    with r rest show ?thesis by simp
  next
    case 2
    with True n show ?thesis by simp
  next
    case 3
    then have tw: "take 5 w = cps ''phase''" using True by simp
    have "w = take 5 w @ drop 5 w" by simp
    moreover obtain c cs where d: "drop 5 w = c # cs" using 3 by (cases "drop 5 w") auto
    ultimately have weq: "w = cps ''phase'' @ c # cs" using tw by simp
    have "c \<in> set w" by (subst weq) simp
    with w have ic: "ident_char U c" by (simp add: list_all_iff)
    then have "c \<noteq> 61" by (auto simp: ident_char_def is_word_def)
    moreover from ic have "\<not> is_space U c" by (simp add: ident_char_def)
    ultimately have "m U migrate_pattern2 (q, cps ''phase'' @ c # (cs @ rest), None) = []"
      by (intro no_match_phase_followed)
    then show ?thesis by (subst weq) simp
  qed
qed

lemma identifier_calm:
  assumes w: "list_all (ident_char U) w"
    and r: "\<not> word_after U rest"
    and n: "w \<noteq> cps ''phase''"
  shows "calm U migrate_pattern2 q w rest"
proof (cases w)
  case Nil
  then show ?thesis by simp
next
  case (Cons c cs)
  have "m U migrate_pattern2 (q, w @ rest, None) = []"
    using w r n by (rule no_match_at_identifier)
  moreover have "calm U migrate_pattern2 (Some c) cs rest"
    using w Cons by (intro calm_after_word) (auto simp: ident_char_def list_all_iff)
  ultimately show ?thesis using Cons by simp
qed

lemma ascii_word_not_space: "c < 128 \<Longrightarrow> is_word U c \<Longrightarrow> \<not> is_space U c"
  by (auto simp: is_word_def is_space_def)

text \<open>
  C4 says that every buffer that contains the token \<open>phase === 'select'\<close> and the
  identifier \<open>phaseLabel\<close> is rewritten with a change count of exactly 1, and that every
  longer identifier that contains \<open>phase\<close> is left unchanged. The count is the number of
  matches: a buffer that holds the token twice has the count 2. And \<open>$\<close>, which a
  JavaScript identifier may contain, is not a word character of \<open>re\<close>: between \<open>$\<close> and
  \<open>phase\<close> there is a word boundary, and the rule rewrites inside the identifier
  \<open>$phase\<close>.
\<close>

theorem phase_rule_counterexample:
  "subn sample_udb migrate_pattern2 (\<lambda>g. migrate_replacement2)
     (cps ''phase === 'select' || phase === 'select' || phaseLabel'') =
   (cps ''battle.phase === 'select' || battle.phase === 'select' || phaseLabel'', 2)
   \<and> subn sample_udb migrate_pattern2 (\<lambda>g. migrate_replacement2)
     (cps ''$phase === 'select' || phaseLabel'') =
   (cps ''$battle.phase === 'select' || phaseLabel'', 1)"
  by (simp add: run_simps migrate_pattern2_def migrate_replacement2_def char_simps sample_udb_def)

text \<open>
  C4, as the code has it. Take a buffer \<open>pre\<close>, the token \<open>phase === 'select'\<close>, \<open>post\<close>,
  where the token starts at a word boundary and is the only match of the pattern: none
  starts in \<open>pre\<close>, none after the \<open>===\<close> of the token. The rule rewrites the token to
  \<open>battle.phase === 'select'\<close>, leaves \<open>pre\<close> and \<open>post\<close> as they are, and reports the
  count 1. The word boundary keeps the rule off the longer identifiers: no match starts
  after a word character \<open>q\<close>, whatever text \<open>s\<close> follows (\<open>subphase ===\<close>); none starts
  where \<open>phase\<close> is followed by a character \<open>c\<close> that is neither a space nor \<open>=\<close>, as
  every character of an identifier is (\<open>phaseLabel\<close>); so none starts at any position of
  an identifier \<open>w\<close> other than \<open>phase\<close> itself, followed by no word character,
  whatever stands before it. For \<open>phaseLabel\<close>, \<open>phaseShift\<close> and \<open>setPhaseFlag\<close> this
  holds whatever stands before and after them.
\<close>

theorem phase_rule_single_match:
  assumes "calm U migrate_pattern2 None pre (cps ''phase === 'select'' @ [39] @ post)"
    and "\<not> word_before U (before None pre)"
    and "no_match U migrate_pattern2 (Some 61) (cps '' 'select'' @ [39] @ post)"
  shows "subn U migrate_pattern2 (\<lambda>g. migrate_replacement2) (pre @ cps ''phase === 'select'' @ [39] @ post) =
      (pre @ cps ''battle.phase === 'select'' @ [39] @ post, 1)
    \<and> (word_before U q \<longrightarrow> m U migrate_pattern2 (q, s, None) = [])
    \<and> (\<not> is_space U c \<and> c \<noteq> 61 \<longrightarrow> m U migrate_pattern2 (p, cps ''phase'' @ c # t, None) = [])
    \<and> (list_all (ident_char U) w \<and> w \<noteq> cps ''phase'' \<and> \<not> word_after U rest \<longrightarrow>
         calm U migrate_pattern2 p w rest)
    \<and> calm U migrate_pattern2 p (cps ''phaseLabel'') rest
    \<and> calm U migrate_pattern2 p (cps ''phaseShift'') rest
    \<and> calm U migrate_pattern2 p (cps ''setPhaseFlag'') rest"
proof -
  have split: "cps ''phase === 'select'' @ [39] @ post = cps ''phase ==='' @ cps '' 'select'' @ [39] @ post"
    by (simp add: cps_def)
  have "subn U migrate_pattern2 (\<lambda>g. migrate_replacement2) (pre @ cps ''phase ==='' @ cps '' 'select'' @ [39] @ post) =
      (pre @ migrate_replacement2 @ cps '' 'select'' @ [39] @ post, 1)"
  proof (rule subn_single)
    show "calm U migrate_pattern2 None pre (cps ''phase ==='' @ cps '' 'select'' @ [39] @ post)"
      using assms(1) by (simp only: split)
    show "m U migrate_pattern2 (before None pre, cps ''phase ==='' @ cps '' 'select'' @ [39] @ post, None) =
        (Some 61, cps '' 'select'' @ [39] @ post, None) # []"
      using assms(2) by (rule phase_match)
    show "cps ''phase ==='' \<noteq> []" by (simp add: cps_def)
    show "no_match U migrate_pattern2 (Some 61) (cps '' 'select'' @ [39] @ post)" by (rule assms(3))
  qed
  then have a: "subn U migrate_pattern2 (\<lambda>g. migrate_replacement2) (pre @ cps ''phase === 'select'' @ [39] @ post) =
      (pre @ cps ''battle.phase === 'select'' @ [39] @ post, 1)"
    by (simp add: cps_def migrate_replacement2_def)
  have b: "word_before U q \<longrightarrow> m U migrate_pattern2 (q, s, None) = []"
    by (simp add: no_match_after_word)
  have c: "\<not> is_space U c \<and> c \<noteq> 61 \<longrightarrow> m U migrate_pattern2 (p, cps ''phase'' @ c # t, None) = []"
    by (simp add: no_match_phase_followed)
  have d: "list_all (ident_char U) w \<and> w \<noteq> cps ''phase'' \<and> \<not> word_after U rest \<longrightarrow>
      calm U migrate_pattern2 p w rest"
    by (simp add: identifier_calm)
  have e: "calm U migrate_pattern2 p (cps ''phaseLabel'') rest"
    by (simp add: migrate_pattern2_def char_simps)
  have f: "calm U migrate_pattern2 p (cps ''phaseShift'') rest"
    by (simp add: migrate_pattern2_def char_simps)
  have g: "calm U migrate_pattern2 p (cps ''setPhaseFlag'') rest"
    by (simp add: migrate_pattern2_def char_simps)
  from a b c d e f g show ?thesis by (intro conjI)
qed

text \<open>
  The token between \<open>if (\<close> and a text that holds \<open>subphase === 1\<close>, where the word
  boundary alone keeps the pattern from a second match, and two longer identifiers: one
  match, the count 1. No match after the \<open>b\<close> of \<open>subphase\<close>, none at \<open>phaseLabel\<close>
  after a space, none at any position of \<open>subphase\<close>.
\<close>

theorem phase_rule_single_match_witness:
  "subn sample_udb migrate_pattern2 (\<lambda>g. migrate_replacement2)
     (cps ''if ('' @ cps ''phase === 'select'' @ [39] @ cps '' && subphase === 1) show(phaseLabel, setPhaseFlag);'') =
   (cps ''if ('' @ cps ''battle.phase === 'select'' @ [39] @ cps '' && subphase === 1) show(phaseLabel, setPhaseFlag);'', 1)
   \<and> m sample_udb migrate_pattern2 (Some 98, cps ''phase === 1)'', None) = []
   \<and> m sample_udb migrate_pattern2 (Some 32, cps ''phase'' @ 76 # cps ''abel === 1)'', None) = []
   \<and> calm sample_udb migrate_pattern2 (Some 32) (cps ''subphase'') (cps '' === 1)'')"
proof -
  have h1: "calm sample_udb migrate_pattern2 None (cps ''if ('')
      (cps ''phase === 'select'' @ [39] @ cps '' && subphase === 1) show(phaseLabel, setPhaseFlag);'')"
    by (simp add: migrate_pattern2_def char_simps sample_udb_def)
  have h2: "\<not> word_before sample_udb (before None (cps ''if (''))"
    by (simp add: char_simps)
  have h3: "no_match sample_udb migrate_pattern2 (Some 61)
      (cps '' 'select'' @ [39] @ cps '' && subphase === 1) show(phaseLabel, setPhaseFlag);'')"
    by (simp add: migrate_pattern2_def char_simps sample_udb_def)
  have h4: "word_before sample_udb (Some 98)"
    by (simp add: char_simps)
  have h5: "\<not> is_space sample_udb 76 \<and> (76::nat) \<noteq> 61"
    by (simp add: char_simps)
  have h6: "list_all (ident_char sample_udb) (cps ''subphase'') \<and> cps ''subphase'' \<noteq> cps ''phase''
      \<and> \<not> word_after sample_udb (cps '' === 1)'')"
    by (simp add: ident_char_def char_simps)
  note th = phase_rule_single_match [OF h1 h2 h3, where q = "Some 98" and s = "cps ''phase === 1)''"
      and c = 76 and t = "cps ''abel === 1)''" and p = "Some 32"
      and w = "cps ''subphase''" and rest = "cps '' === 1)''"]
  have a: "subn sample_udb migrate_pattern2 (\<lambda>g. migrate_replacement2)
     (cps ''if ('' @ cps ''phase === 'select'' @ [39] @ cps '' && subphase === 1) show(phaseLabel, setPhaseFlag);'') =
   (cps ''if ('' @ cps ''battle.phase === 'select'' @ [39] @ cps '' && subphase === 1) show(phaseLabel, setPhaseFlag);'', 1)"
    using th by (rule conjunct1)
  have b: "m sample_udb migrate_pattern2 (Some 98, cps ''phase === 1)'', None) = []"
    using th h4 by blast
  have c: "m sample_udb migrate_pattern2 (Some 32, cps ''phase'' @ 76 # cps ''abel === 1)'', None) = []"
    using th h5 by blast
  have d: "calm sample_udb migrate_pattern2 (Some 32) (cps ''subphase'') (cps '' === 1)'')"
    using th h6 by blast
  from a b c d show ?thesis by (intro conjI)
qed

section \<open>The functional-update rule\<close>

lemma fix_match:
  "m U fix_pattern1 (p, cps ''actions.setPlayer(prev => ({ ...prev, hp: 10 }))'' @ post, None) =
     [(Some 41, post, Some (cps ''hp: 10 '')), (Some 41, post, Some (cps '' hp: 10 ''))]"
  by (simp add: fix_pattern1_def char_simps)

text \<open>
  C8 says that \<open>actions.setPlayer(prev => ({ ...prev, hp: 10 }))\<close> is rewritten to
  \<open>actions.setPlayer({ ...player, hp: 10})\<close>. The group takes the fields up to the closing
  brace, with the space before it, and the callback puts them back as they are: the
  result is \<open>actions.setPlayer({ ...player, hp: 10 })\<close>.
\<close>

theorem functional_update_counterexample:
  "subn sample_udb fix_pattern1 replace1 (cps ''actions.setPlayer(prev => ({ ...prev, hp: 10 }))'') =
     (cps ''actions.setPlayer({ ...player, hp: 10 })'', 1)
   \<and> fst (subn sample_udb fix_pattern1 replace1 (cps ''actions.setPlayer(prev => ({ ...prev, hp: 10 }))''))
       \<noteq> cps ''actions.setPlayer({ ...player, hp: 10})''"
  by (simp add: run_simps fix_pattern1_def replace1_def fields_def char_simps sample_udb_def)

text \<open>
  C8, as the code has it. Take a buffer \<open>pre\<close>, the call
  \<open>actions.setPlayer(prev => ({ ...prev, hp: 10 }))\<close>, \<open>post\<close>, where the call is the only
  match of the pattern: none starts in \<open>pre\<close>, none in \<open>post\<close>. The rule matches the call,
  rewrites it to \<open>actions.setPlayer({ ...player, hp: 10 })\<close>, the captured \<open>hp: 10\<close> with
  the space that follows it, leaves \<open>pre\<close> and \<open>post\<close> as they are, and reports the
  count 1.
\<close>

theorem functional_update_single_match:
  assumes "calm U fix_pattern1 None pre (cps ''actions.setPlayer(prev => ({ ...prev, hp: 10 }))'' @ post)"
    and "no_match U fix_pattern1 (Some 41) post"
  shows "subn U fix_pattern1 replace1 (pre @ cps ''actions.setPlayer(prev => ({ ...prev, hp: 10 }))'' @ post) =
      (pre @ cps ''actions.setPlayer({ ...player, hp: 10 })'' @ post, 1)"
proof -
  have "subn U fix_pattern1 replace1 (pre @ cps ''actions.setPlayer(prev => ({ ...prev, hp: 10 }))'' @ post) =
      (pre @ replace1 (Some (cps ''hp: 10 '')) @ post, 1)"
  proof (rule subn_single)
    show "calm U fix_pattern1 None pre (cps ''actions.setPlayer(prev => ({ ...prev, hp: 10 }))'' @ post)"
      by (rule assms(1))
    show "m U fix_pattern1 (before None pre, cps ''actions.setPlayer(prev => ({ ...prev, hp: 10 }))'' @ post, None) =
        (Some 41, post, Some (cps ''hp: 10 '')) # [(Some 41, post, Some (cps '' hp: 10 ''))]"
      by (rule fix_match)
    show "cps ''actions.setPlayer(prev => ({ ...prev, hp: 10 }))'' \<noteq> []" by (simp add: cps_def)
    show "no_match U fix_pattern1 (Some 41) post" by (rule assms(2))
  qed
  then show ?thesis by (simp add: replace1_def fields_def cps_def)
qed

text \<open>The call after \<open>if (x)\<close>, before a semicolon.\<close>

theorem functional_update_single_match_witness:
  "subn sample_udb fix_pattern1 replace1
     (cps ''if (x) '' @ cps ''actions.setPlayer(prev => ({ ...prev, hp: 10 }))'' @ cps '';'') =
   (cps ''if (x) '' @ cps ''actions.setPlayer({ ...player, hp: 10 })'' @ cps '';'', 1)"
proof -
  have h1: "calm sample_udb fix_pattern1 None (cps ''if (x) '')
      (cps ''actions.setPlayer(prev => ({ ...prev, hp: 10 }))'' @ cps '';'')"
    by (simp add: fix_pattern1_def char_simps sample_udb_def)
  have h2: "no_match sample_udb fix_pattern1 (Some 41) (cps '';'')"
    by (simp add: fix_pattern1_def char_simps sample_udb_def)
  from functional_update_single_match [OF h1 h2] show ?thesis .
qed

section \<open>What a run depends on\<close>

text \<open>
  With a standard output that has every character, a run with its messages is the run
  of the sections on the scripts.
\<close>

lemma py_print_all: "py_print (\<lambda>c. True) text = None"
  by (simp add: py_print_def encodable_def list_all_iff)

lemma prints_all: "prints (\<lambda>c. True) texts = None"
  by (induction texts) (simp_all add: py_print_all)

lemma py_print_check_mark: "\<not> out 9989 \<Longrightarrow> py_print out (9989 # text) = Some UnicodeEncodeError"
  by (simp add: py_print_def encodable_def)

lemma migrate_console_all:
  "migrate_phase_console (\<lambda>c. True) U files f1 f2 = migrate_phase U files f1 f2"
  by (simp add: migrate_phase_console_def migrate_phase_def py_print_all prints_all
      split: sum.splits prod.splits option.splits)

lemma fix_console_all:
  "fix_functional_updates_console (\<lambda>c. True) U files f1 f2 = fix_functional_updates U files f1 f2"
  by (simp add: fix_functional_updates_console_def fix_functional_updates_def py_print_all prints_all
      split: sum.splits prod.splits option.splits)

lemma replace_console_all:
  "replace_ui_components_console (\<lambda>c. True) files f = replace_ui_components files f"
  by (simp add: replace_ui_components_console_def replace_ui_components_def prints_all
      split: sum.splits prod.splits option.splits)

text \<open>The first message of each script starts with the check mark U+2705.\<close>

lemma migrate_console_no_check_mark:
  "files file_path = Some content \<Longrightarrow> \<not> out 9989 \<Longrightarrow>
   migrate_phase_console out U files NoFault f2 =
     (files(file_path @ cps ''.phase_backup'' \<mapsto> content), Inl UnicodeEncodeError)"
  by (simp add: migrate_phase_console_def py_read_def migrate_backup_message_def py_print_check_mark)

lemma fix_console_no_check_mark:
  "files file_path = Some content \<Longrightarrow> \<not> out 9989 \<Longrightarrow>
   fix_functional_updates_console out U files NoFault f2 =
     (files(file_path @ cps ''.func_update_backup'' \<mapsto> content), Inl UnicodeEncodeError)"
  by (simp add: fix_functional_updates_console_def py_read_def fix_backup_message_def py_print_check_mark)

lemma replace_console_no_check_mark:
  "files file_path = Some content \<Longrightarrow> \<not> out 9989 \<Longrightarrow>
   replace_ui_components_console out files NoFault =
     (files(file_path \<mapsto> concat (new_lines (readlines content))), Inl UnicodeEncodeError)"
  by (simp add: replace_ui_components_console_def py_read_def replace_messages_def py_print_check_mark)

text \<open>A run that ends with its counts has written what the transformation returns.\<close>

lemma migrate_console_success:
  assumes "files file_path = Some content"
    and "snd (migrate_phase_console out U files f1 f2) = Inr r"
  shows "r = snd (migrate_transform U content)
    \<and> fst (migrate_phase_console out U files f1 f2) file_path = Some (fst (migrate_transform U content))"
  using assms
  by (cases f1; cases f2)
     (auto simp: migrate_phase_console_def py_read_def split: option.splits prod.splits)

lemma fix_console_success:
  assumes "files file_path = Some content"
    and "snd (fix_functional_updates_console out U files f1 f2) = Inr r"
  shows "r = snd (fix_transform U content)
    \<and> fst (fix_functional_updates_console out U files f1 f2) file_path = Some (fst (fix_transform U content))"
  using assms
  by (cases f1; cases f2)
     (auto simp: fix_functional_updates_console_def py_read_def split: option.splits prod.splits)

lemma replace_console_success:
  assumes "files file_path = Some content"
    and "snd (replace_ui_components_console out files f) = Inr r"
  shows "r = (length (readlines content), length (new_lines (readlines content)))
    \<and> fst (replace_ui_components_console out files f) file_path = Some (concat (new_lines (readlines content)))"
  using assms
  by (cases f)
     (auto simp: replace_ui_components_console_def py_read_def split: option.splits prod.splits)

lemma migrate_console_good:
  "files file_path = Some content \<Longrightarrow>
   migrate_phase_console (\<lambda>c. True) U files NoFault NoFault =
     (files(file_path @ cps ''.phase_backup'' \<mapsto> content, file_path \<mapsto> fst (migrate_transform U content)),
      Inr (snd (migrate_transform U content)))"
  by (simp add: migrate_phase_console_def py_read_def py_print_all prints_all split: prod.splits)

lemma fix_console_good:
  "files file_path = Some content \<Longrightarrow>
   fix_functional_updates_console (\<lambda>c. True) U files NoFault NoFault =
     (files(file_path @ cps ''.func_update_backup'' \<mapsto> content, file_path \<mapsto> fst (fix_transform U content)),
      Inr (snd (fix_transform U content)))"
  by (simp add: fix_functional_updates_console_def py_read_def py_print_all prints_all split: prod.splits)

lemma replace_console_good:
  "files file_path = Some content \<Longrightarrow>
   replace_ui_components_console (\<lambda>c. True) files NoFault =
     (files(file_path \<mapsto> concat (new_lines (readlines content))),
      Inr (length (readlines content), length (new_lines (readlines content))))"
  by (simp add: replace_ui_components_console_def py_read_def prints_all)

text \<open>Two file systems with the same content of the target, in the same environment.\<close>

lemma migrate_console_two_runs:
  assumes "files1 file_path = Some content" and "files2 file_path = Some content"
  shows "snd (migrate_phase_console out U files1 f1 f2) = snd (migrate_phase_console out U files2 f1 f2)
    \<and> fst (migrate_phase_console out U files1 f1 f2) file_path = fst (migrate_phase_console out U files2 f1 f2) file_path"
  using assms
  by (cases f1; cases f2)
     (auto simp: migrate_phase_console_def py_read_def cps_def split: option.splits prod.splits)

lemma fix_console_two_runs:
  assumes "files1 file_path = Some content" and "files2 file_path = Some content"
  shows "snd (fix_functional_updates_console out U files1 f1 f2) = snd (fix_functional_updates_console out U files2 f1 f2)
    \<and> fst (fix_functional_updates_console out U files1 f1 f2) file_path =
      fst (fix_functional_updates_console out U files2 f1 f2) file_path"
  using assms
  by (cases f1; cases f2)
     (auto simp: fix_functional_updates_console_def py_read_def cps_def split: option.splits prod.splits)

lemma replace_console_two_runs:
  assumes "files1 file_path = Some content" and "files2 file_path = Some content"
  shows "snd (replace_ui_components_console out files1 f) = snd (replace_ui_components_console out files2 f)
    \<and> fst (replace_ui_components_console out files1 f) file_path = fst (replace_ui_components_console out files2 f) file_path"
  using assms
  by (cases f)
     (auto simp: replace_ui_components_console_def py_read_def split: option.splits prod.splits)

text \<open>
  C10 says that two runs on the same content of the file end with the same content and the
  same counts, whatever else the state is. Three runs of the migration on a file that
  holds \<open>phase === 1\<close>: with a standard output that has every character and writes that
  succeed, the file is rewritten and the counts are reported; with a standard output
  that has the ASCII characters only, the first message raises after the backup is
  written, no rule is applied and the file stays as it was; with a second write that
  breaks after six characters, the file is left with \<open>battle\<close>.
\<close>

theorem identical_content_different_runs:
  "migrate_phase_console (\<lambda>c. True) sample_udb [file_path \<mapsto> cps ''phase === 1''] NoFault NoFault =
     ([file_path \<mapsto> cps ''phase === 1'', file_path @ cps ''.phase_backup'' \<mapsto> cps ''phase === 1'',
       file_path \<mapsto> cps ''battle.phase === 1''],
      Inr ([0, 1, 0, 0, 0, 0, 0], 1))
   \<and> migrate_phase_console (\<lambda>c. False) sample_udb [file_path \<mapsto> cps ''phase === 1''] NoFault NoFault =
     ([file_path \<mapsto> cps ''phase === 1'', file_path @ cps ''.phase_backup'' \<mapsto> cps ''phase === 1''],
      Inl UnicodeEncodeError)
   \<and> migrate_phase_console (\<lambda>c. True) sample_udb [file_path \<mapsto> cps ''phase === 1''] NoFault (WriteFails 6) =
     ([file_path \<mapsto> cps ''phase === 1'', file_path @ cps ''.phase_backup'' \<mapsto> cps ''phase === 1'',
       file_path \<mapsto> cps ''battle''],
      Inl IOError)"
proof -
  have t: "migrate_transform sample_udb (cps ''phase === 1'') = (cps ''battle.phase === 1'', [0, 1, 0, 0, 0, 0, 0], 1)"
    by (simp add: migrate_transform_def run_simps migrate_defs char_simps sample_udb_def)
  have t6: "take 6 (cps ''battle.phase === 1'') = cps ''battle''"
    by (simp add: cps_def)
  have a: "migrate_phase_console (\<lambda>c. True) sample_udb [file_path \<mapsto> cps ''phase === 1''] NoFault NoFault =
     ([file_path \<mapsto> cps ''phase === 1'', file_path @ cps ''.phase_backup'' \<mapsto> cps ''phase === 1'',
       file_path \<mapsto> cps ''battle.phase === 1''],
      Inr ([0, 1, 0, 0, 0, 0, 0], 1))"
    by (simp add: migrate_phase_console_def py_read_def py_print_all prints_all t)
  have b: "migrate_phase_console (\<lambda>c. False) sample_udb [file_path \<mapsto> cps ''phase === 1''] NoFault NoFault =
     ([file_path \<mapsto> cps ''phase === 1'', file_path @ cps ''.phase_backup'' \<mapsto> cps ''phase === 1''],
      Inl UnicodeEncodeError)"
    by (simp add: migrate_phase_console_def py_read_def migrate_backup_message_def py_print_check_mark)
  have c: "migrate_phase_console (\<lambda>c. True) sample_udb [file_path \<mapsto> cps ''phase === 1''] NoFault (WriteFails 6) =
     ([file_path \<mapsto> cps ''phase === 1'', file_path @ cps ''.phase_backup'' \<mapsto> cps ''phase === 1'',
       file_path \<mapsto> cps ''battle''],
      Inl IOError)"
    by (simp add: migrate_phase_console_def py_read_def py_print_all prints_all t t6)
  from a b c show ?thesis by (intro conjI)
qed

text \<open>
  C10, as the code has it. The transformation of the buffer is a function of the content
  (and of the Unicode database); a run depends on the content of the file, on what
  becomes of its writes and on the encoding of standard output, and on nothing else in
  the file system. On two file systems with the same content of the target, in the same
  environment, the run of each script ends with the same result and leaves the same
  content in the target. Where standard output has every character and the writes
  succeed, the run ends with the counts of the transformation, the target holds the
  transformed content, and the backup, where the script writes one, the content. In
  every environment, a run that ends with its counts has written the transformed
  content and reports the counts of the transformation. And where standard output does
  not have the check mark U+2705, the two substitution scripts end after the backup,
  before a rule is applied, and the line-range script ends after it has rewritten the
  file.
\<close>

theorem run_determined_by_content_and_environment:
  assumes "files1 file_path = Some content" and "files2 file_path = Some content"
  shows "snd (migrate_phase_console out U files1 f1 f2) = snd (migrate_phase_console out U files2 f1 f2)
    \<and> fst (migrate_phase_console out U files1 f1 f2) file_path = fst (migrate_phase_console out U files2 f1 f2) file_path
    \<and> snd (fix_functional_updates_console out U files1 f1 f2) = snd (fix_functional_updates_console out U files2 f1 f2)
    \<and> fst (fix_functional_updates_console out U files1 f1 f2) file_path =
      fst (fix_functional_updates_console out U files2 f1 f2) file_path
    \<and> snd (replace_ui_components_console out files1 f) = snd (replace_ui_components_console out files2 f)
    \<and> fst (replace_ui_components_console out files1 f) file_path = fst (replace_ui_components_console out files2 f) file_path
    \<and> migrate_phase_console (\<lambda>c. True) U files1 NoFault NoFault =
      (files1(file_path @ cps ''.phase_backup'' \<mapsto> content, file_path \<mapsto> fst (migrate_transform U content)),
       Inr (snd (migrate_transform U content)))
    \<and> fix_functional_updates_console (\<lambda>c. True) U files1 NoFault NoFault =
      (files1(file_path @ cps ''.func_update_backup'' \<mapsto> content, file_path \<mapsto> fst (fix_transform U content)),
       Inr (snd (fix_transform U content)))
    \<and> replace_ui_components_console (\<lambda>c. True) files1 NoFault =
      (files1(file_path \<mapsto> concat (new_lines (readlines content))),
       Inr (length (readlines content), length (new_lines (readlines content))))
    \<and> (snd (migrate_phase_console out U files1 f1 f2) = Inr r \<longrightarrow>
        r = snd (migrate_transform U content)
        \<and> fst (migrate_phase_console out U files1 f1 f2) file_path = Some (fst (migrate_transform U content)))
    \<and> (snd (fix_functional_updates_console out U files1 f1 f2) = Inr r \<longrightarrow>
        r = snd (fix_transform U content)
        \<and> fst (fix_functional_updates_console out U files1 f1 f2) file_path = Some (fst (fix_transform U content)))
    \<and> (snd (replace_ui_components_console out files1 f) = Inr r' \<longrightarrow>
        r' = (length (readlines content), length (new_lines (readlines content)))
        \<and> fst (replace_ui_components_console out files1 f) file_path = Some (concat (new_lines (readlines content))))
    \<and> (\<not> out 9989 \<longrightarrow>
        migrate_phase_console out U files1 NoFault f2 =
          (files1(file_path @ cps ''.phase_backup'' \<mapsto> content), Inl UnicodeEncodeError)
        \<and> fix_functional_updates_console out U files1 NoFault f2 =
          (files1(file_path @ cps ''.func_update_backup'' \<mapsto> content), Inl UnicodeEncodeError)
        \<and> replace_ui_components_console out files1 NoFault =
          (files1(file_path \<mapsto> concat (new_lines (readlines content))), Inl UnicodeEncodeError))"
proof -
  note a = migrate_console_two_runs [where ?files1.0 = files1 and ?files2.0 = files2 and content = content
      and out = out and U = U and ?f1.0 = f1 and ?f2.0 = f2, OF assms]
  note b = fix_console_two_runs [where ?files1.0 = files1 and ?files2.0 = files2 and content = content
      and out = out and U = U and ?f1.0 = f1 and ?f2.0 = f2, OF assms]
  note c = replace_console_two_runs [where ?files1.0 = files1 and ?files2.0 = files2 and content = content
      and out = out and f = f, OF assms]
  note d = migrate_console_good [where files = files1 and content = content and U = U, OF assms(1)]
  note e = fix_console_good [where files = files1 and content = content and U = U, OF assms(1)]
  note f = replace_console_good [where files = files1 and content = content, OF assms(1)]
  have g: "snd (migrate_phase_console out U files1 f1 f2) = Inr r \<longrightarrow>
        r = snd (migrate_transform U content)
        \<and> fst (migrate_phase_console out U files1 f1 f2) file_path = Some (fst (migrate_transform U content))"
    using migrate_console_success [where files = files1 and content = content, OF assms(1)] by blast
  have h: "snd (fix_functional_updates_console out U files1 f1 f2) = Inr r \<longrightarrow>
        r = snd (fix_transform U content)
        \<and> fst (fix_functional_updates_console out U files1 f1 f2) file_path = Some (fst (fix_transform U content))"
    using fix_console_success [where files = files1 and content = content, OF assms(1)] by blast
  have i: "snd (replace_ui_components_console out files1 f) = Inr r' \<longrightarrow>
        r' = (length (readlines content), length (new_lines (readlines content)))
        \<and> fst (replace_ui_components_console out files1 f) file_path = Some (concat (new_lines (readlines content)))"
    using replace_console_success [where files = files1 and content = content, OF assms(1)] by blast
  have j: "\<not> out 9989 \<longrightarrow>
        migrate_phase_console out U files1 NoFault f2 =
          (files1(file_path @ cps ''.phase_backup'' \<mapsto> content), Inl UnicodeEncodeError)
        \<and> fix_functional_updates_console out U files1 NoFault f2 =
          (files1(file_path @ cps ''.func_update_backup'' \<mapsto> content), Inl UnicodeEncodeError)
        \<and> replace_ui_components_console out files1 NoFault =
          (files1(file_path \<mapsto> concat (new_lines (readlines content))), Inl UnicodeEncodeError)"
    using assms(1)
    by (simp add: migrate_console_no_check_mark fix_console_no_check_mark replace_console_no_check_mark)
  from a b c d e f g h i j show ?thesis by (intro conjI) (erule conjunct1 conjunct2 | assumption)+
qed

text \<open>
  A file that holds \<open>setPhase(1)\<close>, alone in its file system or beside a second file. With
  a standard output that has every character the run rewrites the file and reports one
  change of the first rule. With one that has the Hangul syllables and not the check
  mark the run ends at the first message, on both file systems.
\<close>

theorem run_determined_by_content_and_environment_witness:
  "migrate_phase_console (\<lambda>c. True) sample_udb [file_path \<mapsto> cps ''setPhase(1)''] NoFault NoFault =
     ([file_path \<mapsto> cps ''setPhase(1)'', file_path @ cps ''.phase_backup'' \<mapsto> cps ''setPhase(1)'',
       file_path \<mapsto> cps ''actions.setPhase(1)''],
      Inr ([1, 0, 0, 0, 0, 0, 0], 1))
   \<and> fst (migrate_phase_console (\<lambda>c. True) sample_udb [file_path \<mapsto> cps ''setPhase(1)''] NoFault NoFault) file_path =
     Some (cps ''actions.setPhase(1)'')
   \<and> migrate_phase_console (\<lambda>c. 44032 \<le> c \<and> c \<le> 55203) sample_udb
       [file_path \<mapsto> cps ''setPhase(1)''] NoFault NoFault =
     ([file_path \<mapsto> cps ''setPhase(1)'', file_path @ cps ''.phase_backup'' \<mapsto> cps ''setPhase(1)''],
      Inl UnicodeEncodeError)
   \<and> snd (migrate_phase_console (\<lambda>c. 44032 \<le> c \<and> c \<le> 55203) sample_udb
       [file_path \<mapsto> cps ''setPhase(1)'', file_path @ cps ''.old'' \<mapsto> cps ''phase''] NoFault NoFault) =
     Inl UnicodeEncodeError"
proof -
  have h1: "[file_path \<mapsto> cps ''setPhase(1)''] file_path = Some (cps ''setPhase(1)'')"
    by simp
  have h2: "[file_path \<mapsto> cps ''setPhase(1)'', file_path @ cps ''.old'' \<mapsto> cps ''phase''] file_path =
      Some (cps ''setPhase(1)'')"
    by (simp add: cps_def)
  have h3: "\<not> (\<lambda>c. 44032 \<le> c \<and> c \<le> 55203) (9989::nat)"
    by simp
  have t: "migrate_transform sample_udb (cps ''setPhase(1)'') = (cps ''actions.setPhase(1)'', [1, 0, 0, 0, 0, 0, 0], 1)"
    by (simp add: migrate_transform_def run_simps migrate_defs char_simps sample_udb_def)
  note good = run_determined_by_content_and_environment
      [where ?files1.0 = "[file_path \<mapsto> cps ''setPhase(1)'']"
        and ?files2.0 = "[file_path \<mapsto> cps ''setPhase(1)'', file_path @ cps ''.old'' \<mapsto> cps ''phase'']"
        and content = "cps ''setPhase(1)''" and out = "\<lambda>c. True" and U = sample_udb
        and ?f1.0 = NoFault and ?f2.0 = NoFault and r = "([1, 0, 0, 0, 0, 0, 0], 1)", OF h1 h2]
  note poor = run_determined_by_content_and_environment
      [where ?files1.0 = "[file_path \<mapsto> cps ''setPhase(1)'']"
        and ?files2.0 = "[file_path \<mapsto> cps ''setPhase(1)'', file_path @ cps ''.old'' \<mapsto> cps ''phase'']"
        and content = "cps ''setPhase(1)''" and out = "\<lambda>c. 44032 \<le> c \<and> c \<le> 55203" and U = sample_udb
        and ?f1.0 = NoFault and ?f2.0 = NoFault, OF h1 h2]
  have a: "migrate_phase_console (\<lambda>c. True) sample_udb [file_path \<mapsto> cps ''setPhase(1)''] NoFault NoFault =
     ([file_path \<mapsto> cps ''setPhase(1)'', file_path @ cps ''.phase_backup'' \<mapsto> cps ''setPhase(1)'',
       file_path \<mapsto> cps ''actions.setPhase(1)''],
      Inr ([1, 0, 0, 0, 0, 0, 0], 1))"
    using good by (simp add: t)
  have b: "fst (migrate_phase_console (\<lambda>c. True) sample_udb [file_path \<mapsto> cps ''setPhase(1)''] NoFault NoFault) file_path =
     Some (cps ''actions.setPhase(1)'')"
  proof -
    have "snd (migrate_phase_console (\<lambda>c. True) sample_udb [file_path \<mapsto> cps ''setPhase(1)''] NoFault NoFault) =
        Inr ([1, 0, 0, 0, 0, 0, 0], 1)"
      by (simp add: a)
    with good show ?thesis by (simp add: t)
  qed
  have c: "migrate_phase_console (\<lambda>c. 44032 \<le> c \<and> c \<le> 55203) sample_udb
       [file_path \<mapsto> cps ''setPhase(1)''] NoFault NoFault =
     ([file_path \<mapsto> cps ''setPhase(1)'', file_path @ cps ''.phase_backup'' \<mapsto> cps ''setPhase(1)''],
      Inl UnicodeEncodeError)"
    using poor h3 by blast
  have d: "snd (migrate_phase_console (\<lambda>c. 44032 \<le> c \<and> c \<le> 55203) sample_udb
       [file_path \<mapsto> cps ''setPhase(1)'', file_path @ cps ''.old'' \<mapsto> cps ''phase''] NoFault NoFault) =
     Inl UnicodeEncodeError"
  proof -
    have "snd (migrate_phase_console (\<lambda>c. 44032 \<le> c \<and> c \<le> 55203) sample_udb
        [file_path \<mapsto> cps ''setPhase(1)''] NoFault NoFault) =
      snd (migrate_phase_console (\<lambda>c. 44032 \<le> c \<and> c \<le> 55203) sample_udb
        [file_path \<mapsto> cps ''setPhase(1)'', file_path @ cps ''.old'' \<mapsto> cps ''phase''] NoFault NoFault)"
      using poor by (rule conjunct1)
    with c show ?thesis by simp
  qed
  from a b c d show ?thesis by (intro conjI)
qed

end
